theory Spec2Isabelle
  imports Complex_Main "HOL-Library.Finite_Map" "HOL-Library.Word" "HOL-Library.Log_Nat"
begin

unbundle bit_operations_syntax

section \<open>Time\<close>

text \<open>
  A \<open>time.Time\<close> is an instant on the process's monotonic timeline and a
  \<open>time.Duration\<close> a signed number of nanoseconds; both are integers here.
  \<open>t.Add(d)\<close> is \<open>t + d\<close> and \<open>t.After(u)\<close> is \<open>u < t\<close>. Every call of
  \<open>time.Now()\<close> in the source is a separate argument of the model, in the order the
  calls are made, so that nothing is assumed about two readings being equal.
\<close>

type_synonym time = int
type_synonym duration = int

definition After :: "time \<Rightarrow> time \<Rightarrow> bool" where
  "After t u = (u < t)"

definition Add :: "time \<Rightarrow> duration \<Rightarrow> time" where
  "Add t d = t + d"

definition Millisecond :: duration where
  "Millisecond = 1000000"

definition Second :: duration where
  "Second = 1000 * Millisecond"

definition Minute :: duration where
  "Minute = 60 * Second"

section \<open>float64\<close>

text \<open>
  A finite \<open>float64\<close> is the rational number it denotes. \<open>round_f64\<close> rounds a rational to
  the nearest \<open>float64\<close>, ties to even, as every \<open>float64\<close> conversion and operation of Go
  does. The exponent is not bounded in the model, so \<open>round_f64\<close> is the rounding of
  IEEE 754 binary64 on the arguments that are 0 or of a magnitude from \<open>2^-1022\<close> to
  \<open>2^1023\<close>; infinities, NaN and the negative zero are not values of the model. The
  operands of the one \<open>float64\<close> computation of the cache all lie in that range
  (\<open>GetStatistics_operands_in_range\<close> below).
\<close>

text \<open>
  \<open>f64_exponent x\<close>, for \<open>x > 0\<close>, is the \<open>e\<close> with \<open>2^e \<le> x < 2^(e+1)\<close>, found from
  the bit lengths of numerator and denominator.
\<close>

definition f64_exponent :: "rat \<Rightarrow> int" where
  "f64_exponent x =
     (case quotient_of x of
        (p, q) \<Rightarrow> let d = bitlen p - bitlen q in if 2 powi d \<le> x then d else d - 1)"

text \<open>The nearest integer, a tie going to the even one.\<close>

definition round_half_even :: "rat \<Rightarrow> int" where
  "round_half_even q =
     (let n = \<lfloor>q\<rfloor>; r = q - of_int n
      in if r < 1 / 2 then n else if 1 / 2 < r then n + 1 else if even n then n else n + 1)"

text \<open>
  The nearest multiple of the unit in the last place \<open>2^(e-52)\<close>: a significand of 53
  bits.
\<close>

definition round_f64_pos :: "rat \<Rightarrow> rat" where
  "round_f64_pos x =
     (let ulp = 2 powi (f64_exponent x - 52)
      in of_int (round_half_even (x / ulp)) * ulp)"

definition round_f64 :: "rat \<Rightarrow> rat" where
  "round_f64 x = (if x = 0 then 0 else if 0 < x then round_f64_pos x else - round_f64_pos (- x))"

text \<open>
  The conversion \<open>float64(n)\<close> of an integer, and the quotient and the product of two
  \<open>float64\<close> values: the exact result, rounded. Go's \<open>/\<close> is only used here with a
  divisor that is not zero.
\<close>

definition float64_of_int :: "int \<Rightarrow> rat" where
  "float64_of_int n = round_f64 (of_int n)"

definition f64_div :: "rat \<Rightarrow> rat \<Rightarrow> rat" where
  "f64_div a b = round_f64 (a / b)"

definition f64_mul :: "rat \<Rightarrow> rat \<Rightarrow> rat" where
  "f64_mul a b = round_f64 (a * b)"

text \<open>The arguments on which \<open>round_f64\<close> is the rounding of IEEE 754 binary64.\<close>

definition f64_in_range :: "rat \<Rightarrow> bool" where
  "f64_in_range x = (x = 0 \<or> (1 / 2 ^ 1022 \<le> \<bar>x\<bar> \<and> \<bar>x\<bar> \<le> 2 ^ 1023))"

section \<open>pkg/cache/memory\_cache.go\<close>

text \<open>
  The entry map is a finite map, so that \<open>len(c.data)\<close> is the number of its keys.
  The three counters are \<open>int64\<close>: 64-bit words whose \<open>+\<close> wraps as Go's does, read
  as signed numbers by \<open>sint\<close>. The lock, the ticker and the stop channel carry no data
  and are left out; every operation is one atomic step on the record.
\<close>

record 'v CacheEntry =
  Value :: 'v
  Expiration :: time

definition IsExpired :: "time \<Rightarrow> 'v CacheEntry \<Rightarrow> bool" where
  "IsExpired now e = After now (Expiration e)"

record Statistics =
  Hits :: "64 word"
  Misses :: "64 word"
  Evictions :: "64 word"
  Entries :: nat
  HitRate :: rat

record cache_stats =
  hits :: "64 word"
  misses :: "64 word"
  evictions :: "64 word"

record 'v MemoryCache =
  data :: "(string, 'v CacheEntry) fmap"
  defaultTTL :: duration
  stats :: cache_stats

definition NewMemoryCache :: "duration \<Rightarrow> 'v MemoryCache" where
  "NewMemoryCache ttl0 =
     \<lparr>data = fmempty, defaultTTL = ttl0, stats = \<lparr>hits = 0, misses = 0, evictions = 0\<rparr>\<rparr>"

text \<open>
  \<open>Get\<close> returns the pair \<open>(value, found)\<close>; Go's \<open>nil\<close> value is \<open>None\<close>. Its one
  clock reading (inside \<open>IsExpired\<close>) is \<open>now\<close>.
\<close>

definition Get :: "time \<Rightarrow> string \<Rightarrow> 'v MemoryCache \<Rightarrow> ('v option \<times> bool) \<times> 'v MemoryCache" where
  "Get now key c =
     (case fmlookup (data c) key of
        None \<Rightarrow> ((None, False), c\<lparr>stats := (stats c)\<lparr>misses := misses (stats c) + 1\<rparr>\<rparr>)
      | Some entry \<Rightarrow>
          if IsExpired now entry
          then ((None, False), c\<lparr>stats := (stats c)\<lparr>misses := misses (stats c) + 1\<rparr>\<rparr>)
          else ((Some (Value entry), True), c\<lparr>stats := (stats c)\<lparr>hits := hits (stats c) + 1\<rparr>\<rparr>))"

definition SetWithTTL :: "time \<Rightarrow> string \<Rightarrow> 'v \<Rightarrow> duration \<Rightarrow> 'v MemoryCache \<Rightarrow> 'v MemoryCache" where
  "SetWithTTL now key v ttl0 c =
     c\<lparr>data := fmupd key \<lparr>Value = v, Expiration = Add now ttl0\<rparr> (data c)\<rparr>"

definition Set_cache :: "time \<Rightarrow> string \<Rightarrow> 'v \<Rightarrow> 'v MemoryCache \<Rightarrow> 'v MemoryCache" where
  "Set_cache now key v c = SetWithTTL now key v (defaultTTL c) c"

text \<open>\<open>Delete\<close> has no result in the source: the model returns the unit value and the new state.\<close>

definition Delete :: "string \<Rightarrow> 'v MemoryCache \<Rightarrow> unit \<times> 'v MemoryCache" where
  "Delete key c =
     (case fmlookup (data c) key of
        Some _ \<Rightarrow> ((), c\<lparr>data := fmdrop key (data c),
                          stats := (stats c)\<lparr>evictions := evictions (stats c) + 1\<rparr>\<rparr>)
      | None \<Rightarrow> ((), c))"

definition Clear :: "'v MemoryCache \<Rightarrow> 'v MemoryCache" where
  "Clear c =
     (let evicted = fcard (fmdom (data c))
      in c\<lparr>data := fmempty,
           stats := (stats c)\<lparr>evictions := evictions (stats c) + word_of_nat evicted\<rparr>\<rparr>)"

text \<open>
  \<open>total\<close> is an \<open>int64\<close>: the sum wraps and the test \<open>total > 0\<close> is signed. The hit
  rate is \<open>float64(c.stats.hits) / float64(total) * 100\<close>, left to right, each conversion
  and each operation rounded; the constant 100 is a \<open>float64\<close> as it stands.
\<close>

definition GetStatistics :: "'v MemoryCache \<Rightarrow> Statistics" where
  "GetStatistics c =
     (let total = hits (stats c) + misses (stats c);
          hitRate = (if 0 <s total
                     then f64_mul (f64_div (float64_of_int (sint (hits (stats c))))
                                           (float64_of_int (sint total))) 100
                     else 0)
      in \<lparr>Hits = hits (stats c), Misses = misses (stats c), Evictions = evictions (stats c),
          Entries = fcard (fmdom (data c)), HitRate = hitRate\<rparr>)"

definition ResetStatistics :: "'v MemoryCache \<Rightarrow> 'v MemoryCache" where
  "ResetStatistics c = c\<lparr>stats := \<lparr>hits = 0, misses = 0, evictions = 0\<rparr>\<rparr>"

text \<open>
  \<open>compute\<close> is a Go closure: a step on the state \<open>'w\<close> it closes over, which yields
  an error (\<open>Inl\<close>) or a value (\<open>Inr\<close>). That state does not contain the cache
  itself. The result is Go's pair \<open>(value, error)\<close>, \<open>None\<close> standing for \<open>nil\<close>.
  \<open>t_get\<close> is the clock reading of the lookup and \<open>t_set\<close> the later one of the
  store. The \<open>ctx\<close> argument is not used by the source.
\<close>

definition GetOrSet ::
  "time \<Rightarrow> time \<Rightarrow> string \<Rightarrow> ('w \<Rightarrow> ('e + 'v) \<times> 'w) \<Rightarrow> 'v MemoryCache \<times> 'w
     \<Rightarrow> ('v option \<times> 'e option) \<times> ('v MemoryCache \<times> 'w)" where
  "GetOrSet t_get t_set key compute cw =
     (case Get t_get key (fst cw) of
        ((cached, found), c1) \<Rightarrow>
          if found then ((cached, None), (c1, snd cw))
          else (case compute (snd cw) of
                  (Inl err, w1) \<Rightarrow> ((None, Some err), (c1, w1))
                | (Inr v, w1) \<Rightarrow> ((Some v, None), (Set_cache t_set key v c1, w1))))"

definition GetOrSetWithTTL ::
  "time \<Rightarrow> time \<Rightarrow> string \<Rightarrow> duration \<Rightarrow> ('w \<Rightarrow> ('e + 'v) \<times> 'w) \<Rightarrow> 'v MemoryCache \<times> 'w
     \<Rightarrow> ('v option \<times> 'e option) \<times> ('v MemoryCache \<times> 'w)" where
  "GetOrSetWithTTL t_get t_set key ttl0 compute cw =
     (case Get t_get key (fst cw) of
        ((cached, found), c1) \<Rightarrow>
          if found then ((cached, None), (c1, snd cw))
          else (case compute (snd cw) of
                  (Inl err, w1) \<Rightarrow> ((None, Some err), (c1, w1))
                | (Inr v, w1) \<Rightarrow> ((Some v, None), (SetWithTTL t_set key v ttl0 c1, w1))))"

section \<open>internal/server/session.go\<close>

text \<open>
  The file is \<open>src/unnamed/part_001\<close>. The session map is a finite map from ids to
  sessions; \<open>Metadata\<close> is opaque. The mutex and the stop channel are left out. The
  field name \<open>maxSessons\<close> is the source's.
\<close>

record 'md Session =
  ID :: string
  CreatedAt :: time
  ExpiresAt :: time
  LastUsed :: time
  Metadata :: 'md

record 'md SessionManager =
  sessions :: "(string, 'md Session) fmap"
  ttl :: duration
  maxSessons :: int

datatype 'r session_error = MaxSessionsReached int | SessionIDFailed 'r

definition NewSessionManager :: "duration \<Rightarrow> int \<Rightarrow> 'md SessionManager" where
  "NewSessionManager sessionTTL maxSessions =
     \<lparr>sessions = fmempty,
      ttl = (if sessionTTL = 0 then 30 * Minute else sessionTTL),
      maxSessons = (if maxSessions = 0 then 1000 else maxSessions)\<rparr>"

definition len_sessions :: "'md SessionManager \<Rightarrow> int" where
  "len_sessions sm = int (fcard (fmdom (sessions sm)))"

text \<open>
  The \<open>range\<close> loop deletes every session whose expiry lies before the one clock
  reading taken ahead of the loop. The order of a Go map iteration is unspecified and the
  outcome does not depend on it: the sessions that stay are those that are not expired.
\<close>

definition cleanupExpiredLocked :: "time \<Rightarrow> 'md SessionManager \<Rightarrow> 'md SessionManager" where
  "cleanupExpiredLocked now sm =
     sm\<lparr>sessions :=
          fmfilter (\<lambda>id. case fmlookup (sessions sm) id of
                           Some session \<Rightarrow> \<not> After now (ExpiresAt session)
                         | None \<Rightarrow> False)
            (sessions sm)\<rparr>"

text \<open>
  \<open>generateSessionID\<close> reads 16 bytes from \<open>crypto/rand\<close>; the outcome of that read,
  an error or the bytes, is the argument \<open>rnd\<close>. \<open>hex.EncodeToString\<close> writes two
  lower-case digits per byte.
\<close>

definition hextable :: string where
  "hextable = ''0123456789abcdef''"

definition EncodeToString :: "8 word list \<Rightarrow> string" where
  "EncodeToString bs =
     concat (map (\<lambda>v. [hextable ! unat (drop_bit 4 v), hextable ! unat (v AND 0x0f)]) bs)"

definition generateSessionID :: "'r + 8 word list \<Rightarrow> 'r + string" where
  "generateSessionID rnd =
     (case rnd of Inl err \<Rightarrow> Inl err | Inr bytes \<Rightarrow> Inr (EncodeToString bytes))"

text \<open>
  \<open>storeNewSession\<close> is the part of \<open>CreateSession\<close> after the capacity check (the
  source has it inline). \<open>CreateSession\<close> reads the clock inside
  \<open>cleanupExpiredLocked\<close> (\<open>t_cleanup\<close>, only when at capacity) and again for the new
  session (\<open>now\<close>).
\<close>

definition storeNewSession ::
  "'md \<Rightarrow> 'r + 8 word list \<Rightarrow> time \<Rightarrow> 'md SessionManager
     \<Rightarrow> ('r session_error + 'md Session) \<times> 'md SessionManager" where
  "storeNewSession metadata rnd now sm =
     (case generateSessionID rnd of
        Inl err \<Rightarrow> (Inl (SessionIDFailed err), sm)
      | Inr sessionID \<Rightarrow>
          (let session = \<lparr>ID = sessionID, CreatedAt = now, ExpiresAt = Add now (ttl sm),
                          LastUsed = now, Metadata = metadata\<rparr>
           in (Inr session, sm\<lparr>sessions := fmupd sessionID session (sessions sm)\<rparr>)))"

definition CreateSession ::
  "'md \<Rightarrow> 'r + 8 word list \<Rightarrow> time \<Rightarrow> time \<Rightarrow> 'md SessionManager
     \<Rightarrow> ('r session_error + 'md Session) \<times> 'md SessionManager" where
  "CreateSession metadata rnd t_cleanup now sm =
     (if len_sessions sm \<ge> maxSessons sm then
        (let sm1 = cleanupExpiredLocked t_cleanup sm
         in if len_sessions sm1 \<ge> maxSessons sm1
            then (Inl (MaxSessionsReached (maxSessons sm1)), sm1)
            else storeNewSession metadata rnd now sm1)
      else storeNewSession metadata rnd now sm)"

definition DeleteSession :: "string \<Rightarrow> 'md SessionManager \<Rightarrow> bool \<times> 'md SessionManager" where
  "DeleteSession sessionID sm =
     (case fmlookup (sessions sm) sessionID of
        Some _ \<Rightarrow> (True, sm\<lparr>sessions := fmdrop sessionID (sessions sm)\<rparr>)
      | None \<Rightarrow> (False, sm))"

definition GetSession :: "time \<Rightarrow> string \<Rightarrow> 'md SessionManager \<Rightarrow> 'md Session option \<times> 'md SessionManager" where
  "GetSession now sessionID sm =
     (case fmlookup (sessions sm) sessionID of
        None \<Rightarrow> (None, sm)
      | Some session \<Rightarrow>
          if After now (ExpiresAt session) then (None, snd (DeleteSession sessionID sm))
          else (Some session, sm))"

text \<open>
  \<open>TouchSession\<close> calls \<open>time.Now()\<close> three times: for the expiry check
  (\<open>t_check\<close>), for \<open>LastUsed\<close> (\<open>t_used\<close>) and for \<open>ExpiresAt\<close>
  (\<open>t_expiry\<close>).
\<close>

definition TouchSession ::
  "time \<Rightarrow> time \<Rightarrow> time \<Rightarrow> string \<Rightarrow> 'md SessionManager \<Rightarrow> bool \<times> 'md SessionManager" where
  "TouchSession t_check t_used t_expiry sessionID sm =
     (case fmlookup (sessions sm) sessionID of
        None \<Rightarrow> (False, sm)
      | Some session \<Rightarrow>
          if After t_check (ExpiresAt session)
          then (False, sm\<lparr>sessions := fmdrop sessionID (sessions sm)\<rparr>)
          else (True, sm\<lparr>sessions :=
                           fmupd sessionID
                             (session\<lparr>LastUsed := t_used, ExpiresAt := Add t_expiry (ttl sm)\<rparr>)
                             (sessions sm)\<rparr>))"

section \<open>pkg/clients/retry.go\<close>

text \<open>
  \<open>MaxRetries\<close> is a Go \<open>int\<close>. The loop counter runs from 0 and the loop is left
  when it equals \<open>MaxRetries\<close>, so it never reaches the end of the \<open>int\<close> range:
  both are unbounded integers here. \<open>Multiplier\<close> is the real number the
  \<open>float64\<close> denotes.
\<close>

record RetryConfig =
  MaxRetries :: int
  InitialBackoff :: duration
  MaxBackoff :: duration
  Multiplier :: real

definition DefaultRetryConfig :: RetryConfig where
  "DefaultRetryConfig =
     \<lparr>MaxRetries = 3, InitialBackoff = 100 * Millisecond, MaxBackoff = 5 * Second,
      Multiplier = 2\<rparr>"

text \<open>
  The five predicates of \<open>k8s.io/apimachinery/pkg/api/errors\<close> that \<open>isRetryable\<close>
  calls belong to a library outside the repository: they are parameters, over any type
  \<open>'e\<close> of non-nil errors. A Go \<open>error\<close> is an \<open>'e option\<close>, \<open>None\<close> being
  \<open>nil\<close>.
\<close>

record 'e k8s_errors =
  IsTimeout :: "'e \<Rightarrow> bool"
  IsServerTimeout :: "'e \<Rightarrow> bool"
  IsTooManyRequests :: "'e \<Rightarrow> bool"
  IsInternalError :: "'e \<Rightarrow> bool"
  IsServiceUnavailable :: "'e \<Rightarrow> bool"

definition isRetryable :: "'e k8s_errors \<Rightarrow> 'e option \<Rightarrow> bool" where
  "isRetryable errors err =
     (case err of
        None \<Rightarrow> False
      | Some e \<Rightarrow>
          if IsTimeout errors e then True
          else if IsServerTimeout errors e then True
          else if IsTooManyRequests errors e then True
          else if IsInternalError errors e then True
          else if IsServiceUnavailable errors e then True
          else False)"

text \<open>
  The three errors that \<open>RetryWithBackoff\<close> builds with \<open>fmt.Errorf\<close>, with the
  values their format strings print or wrap:
  \<open>"non-retryable error: %w"\<close>, \<open>"context cancelled after %d attempts: %w"\<close> and
  \<open>"max retries (%d) exceeded: %w"\<close>.
\<close>

datatype ('e, 'c) retry_error =
    NonRetryable 'e
  | ContextCancelled int 'c
  | MaxRetriesExceeded int "'e option"

text \<open>
  What the function meets outside itself:
  \<^item> \<open>fn\<close>, the operation: a closure, a step on the state \<open>'w\<close> of the world that
    returns an error or \<open>nil\<close>;
  \<^item> \<open>wait\<close>, the \<open>select\<close> between \<open>ctx.Done()\<close> and \<open>time.After(backoff)\<close>:
    given the backoff and the world it yields \<open>Some (ctx.Err())\<close> when the first case
    is taken and \<open>None\<close> when the timer's is, with the world after the wait. Which case
    Go takes when both are ready is not determined, and is up to this parameter;
  \<^item> \<open>scale\<close>, the \<open>float64\<close> step \<open>time.Duration(float64(backoff) * m)\<close>;
  \<^item> \<open>errors\<close>, the library predicates.
\<close>

record ('w, 'e, 'c) retry_env =
  errors :: "'e k8s_errors"
  scale :: "duration \<Rightarrow> real \<Rightarrow> duration"
  wait :: "duration \<Rightarrow> 'w \<Rightarrow> 'c option \<times> 'w"
  fn :: "'w \<Rightarrow> 'e option \<times> 'w"

definition nextBackoff :: "('w, 'e, 'c) retry_env \<Rightarrow> RetryConfig \<Rightarrow> duration \<Rightarrow> duration" where
  "nextBackoff env cfg backoff =
     (let b = scale env backoff (Multiplier cfg)
      in if b > MaxBackoff cfg then MaxBackoff cfg else b)"

text \<open>
  The \<open>for\<close> loop, from the value of \<open>attempt\<close>, \<open>backoff\<close> and \<open>lastErr\<close> at the
  loop test. The \<open>break\<close> at the last attempt leads to the \<open>return\<close> after the loop,
  with \<open>lastErr\<close> the error just seen.
\<close>

function retry_loop ::
  "('w, 'e, 'c) retry_env \<Rightarrow> RetryConfig \<Rightarrow> int \<Rightarrow> duration \<Rightarrow> 'e option \<Rightarrow> 'w
     \<Rightarrow> ('e, 'c) retry_error option \<times> 'w" where
  "retry_loop env cfg attempt backoff lastErr w =
     (if attempt \<le> MaxRetries cfg then
        (case fn env w of
           (None, w1) \<Rightarrow> (None, w1)
         | (Some err, w1) \<Rightarrow>
             if \<not> isRetryable (errors env) (Some err) then (Some (NonRetryable err), w1)
             else if attempt = MaxRetries cfg
               then (Some (MaxRetriesExceeded (MaxRetries cfg) (Some err)), w1)
             else (case wait env backoff w1 of
                     (Some cerr, w2) \<Rightarrow> (Some (ContextCancelled (attempt + 1) cerr), w2)
                   | (None, w2) \<Rightarrow>
                       retry_loop env cfg (attempt + 1) (nextBackoff env cfg backoff)
                         (Some err) w2))
      else (Some (MaxRetriesExceeded (MaxRetries cfg) lastErr), w))"
  by pat_completeness auto
termination
  by (relation "measure (\<lambda>(env, cfg, attempt, backoff, lastErr, w). nat (MaxRetries cfg + 1 - attempt))") auto

text \<open>\<open>if cfg == nil { cfg = DefaultRetryConfig() }\<close>\<close>

definition config_or_default :: "RetryConfig option \<Rightarrow> RetryConfig" where
  "config_or_default cfg0 = (case cfg0 of None \<Rightarrow> DefaultRetryConfig | Some c \<Rightarrow> c)"

definition RetryWithBackoff ::
  "('w, 'e, 'c) retry_env \<Rightarrow> RetryConfig option \<Rightarrow> 'w \<Rightarrow> ('e, 'c) retry_error option \<times> 'w" where
  "RetryWithBackoff env cfg0 w =
     (let cfg = config_or_default cfg0
      in retry_loop env cfg 0 (InitialBackoff cfg) None w)"

declare retry_loop.simps [simp del]

subsection \<open>Observing a run\<close>

text \<open>
  To count the invocations of the operation and the consultations of the context, a run
  is observed: \<open>traced env\<close> is \<open>env\<close> on a world that also holds the list of events
  so far, where each call of \<open>fn\<close> appends \<open>Invoked\<close> with its result and each
  \<open>select\<close> appends \<open>Waited\<close> with the backoff and its outcome. The function under
  study is unchanged: it is \<open>RetryWithBackoff\<close> itself that runs on the traced
  environment.
\<close>

datatype ('e, 'c) event = Invoked "'e option" | Waited duration "'c option"

definition traced :: "('w, 'e, 'c) retry_env \<Rightarrow> ('w \<times> ('e, 'c) event list, 'e, 'c) retry_env" where
  "traced env =
     \<lparr>errors = errors env,
      scale = scale env,
      wait = (\<lambda>b wt. case wait env b (fst wt) of (c, w1) \<Rightarrow> (c, (w1, snd wt @ [Waited b c]))),
      fn = (\<lambda>wt. case fn env (fst wt) of (r, w1) \<Rightarrow> (r, (w1, snd wt @ [Invoked r])))\<rparr>"

fun invocations :: "('e, 'c) event list \<Rightarrow> 'e option list" where
  "invocations [] = []"
| "invocations (Invoked r # es) = r # invocations es"
| "invocations (Waited b c # es) = invocations es"

text \<open>
  \<open>checks_follow_failures errs prev es\<close>: in the events \<open>es\<close>, every \<open>select\<close> on the
  context comes immediately after an invocation whose result is a retryable error.
  \<open>prev\<close> is the result of the invocation just before \<open>es\<close>, or \<open>None\<close> when the event
  before is not an invocation or there is none.
\<close>

fun checks_follow_failures ::
  "'e k8s_errors \<Rightarrow> 'e option option \<Rightarrow> ('e, 'c) event list \<Rightarrow> bool" where
  "checks_follow_failures errs prev [] = True"
| "checks_follow_failures errs prev (Invoked r # es) = checks_follow_failures errs (Some r) es"
| "checks_follow_failures errs prev (Waited b c # es) =
     ((case prev of None \<Rightarrow> False | Some r \<Rightarrow> isRetryable errs r)
      \<and> checks_follow_failures errs None es)"

text \<open>The events of a run of the loop that starts with an empty list of events.\<close>

definition run_trace :: "('w, 'e, 'c) retry_env \<Rightarrow> RetryConfig \<Rightarrow> int \<Rightarrow> duration \<Rightarrow> 'e option \<Rightarrow> 'w \<Rightarrow> ('e, 'c) event list" where
  "run_trace env cfg a b le w = snd (snd (retry_loop (traced env) cfg a b le (w, [])))"

section \<open>Sample states and environments\<close>

text \<open>
  Concrete inputs on which the theorems below are instantiated: a cache that holds the
  key \<open>a\<close> until instant 60, caches with one hit and one or two misses, two \<open>compute\<close>
  closures that count their calls, a registry with one session and room for one, and
  operations that always fail with a given Kubernetes status reason, under a context that
  is cancelled or not.
\<close>

definition cache_a :: "int MemoryCache" where
  "cache_a = SetWithTTL 0 ''a'' 1 60 (NewMemoryCache 60)"

definition cache_stats_1_1 :: "int MemoryCache" where
  "cache_stats_1_1 = (NewMemoryCache 60)\<lparr>stats := \<lparr>hits = 1, misses = 1, evictions = 0\<rparr>\<rparr>"

definition cache_stats_1_2 :: "int MemoryCache" where
  "cache_stats_1_2 = (NewMemoryCache 60)\<lparr>stats := \<lparr>hits = 1, misses = 2, evictions = 0\<rparr>\<rparr>"

definition compute_ok :: "nat \<Rightarrow> (string + int) \<times> nat" where
  "compute_ok n = (Inr 7, Suc n)"

definition compute_fail :: "nat \<Rightarrow> (string + int) \<times> nat" where
  "compute_fail n = (Inl ''upstream down'', Suc n)"

definition session_01ab :: "unit Session" where
  "session_01ab = \<lparr>ID = ''01ab'', CreatedAt = 5, ExpiresAt = 15, LastUsed = 5, Metadata = ()\<rparr>"

definition sm_full :: "unit SessionManager" where
  "sm_full = \<lparr>sessions = fmupd ''01ab'' session_01ab fmempty, ttl = 10, maxSessons = 1\<rparr>"

datatype k8s_reason =
  Timeout | ServerTimeout | TooManyRequests | InternalError | ServiceUnavailable | Forbidden

datatype ctx_error = Canceled | DeadlineExceeded

definition reason_errors :: "k8s_reason k8s_errors" where
  "reason_errors =
     \<lparr>IsTimeout = (\<lambda>e. e = Timeout),
      IsServerTimeout = (\<lambda>e. e = ServerTimeout),
      IsTooManyRequests = (\<lambda>e. e = TooManyRequests),
      IsInternalError = (\<lambda>e. e = InternalError),
      IsServiceUnavailable = (\<lambda>e. e = ServiceUnavailable)\<rparr>"

definition failing_env :: "k8s_reason \<Rightarrow> bool \<Rightarrow> (nat, k8s_reason, ctx_error) retry_env" where
  "failing_env e cancelled =
     \<lparr>errors = reason_errors,
      scale = (\<lambda>b m. \<lfloor>real_of_int b * m\<rfloor>),
      wait = (\<lambda>b w. (if cancelled then Some Canceled else None, w)),
      fn = (\<lambda>n. (Some e, Suc n))\<rparr>"

definition no_budget :: RetryConfig where
  "no_budget = DefaultRetryConfig\<lparr>MaxRetries := - 1\<rparr>"

definition two_retries :: RetryConfig where
  "two_retries = DefaultRetryConfig\<lparr>MaxRetries := 2\<rparr>"

definition succeeding_env :: "(nat, k8s_reason, ctx_error) retry_env" where
  "succeeding_env = (failing_env Timeout True)\<lparr>fn := (\<lambda>n. (None, Suc n))\<rparr>"

section \<open>Auxiliary facts\<close>

subsection \<open>Rounding to float64\<close>

lemma of_int_bitlen_bounds:
  assumes "0 < p"
  shows "(2::rat) powi (bitlen p - 1) \<le> of_int p" "of_int p < (2::rat) powi (bitlen p)"
proof -
  have b: "2 ^ nat (bitlen p - 1) \<le> p" "p < 2 ^ nat (bitlen p)"
    using bitlen_bounds[OF assms] by auto
  have pos: "1 \<le> bitlen p" using assms by (simp add: bitlen_alt_def)
  have "(of_int (2 ^ nat (bitlen p - 1)) :: rat) \<le> of_int p" using b(1) by (simp only: of_int_le_iff)
  then show "(2::rat) powi (bitlen p - 1) \<le> of_int p"
    using pos by (simp add: power_int_nonneg_exp)
  have "(of_int p :: rat) < of_int (2 ^ nat (bitlen p))" using b(2) by (simp only: of_int_less_iff)
  then show "of_int p < (2::rat) powi (bitlen p)"
    using pos by (simp add: power_int_nonneg_exp)
qed

lemma f64_exponent_bounds:
  assumes "0 < x"
  shows "2 powi (f64_exponent x) \<le> x" "x < 2 powi (f64_exponent x + 1)"
proof -
  obtain p q where pq: "quotient_of x = (p, q)" by (cases "quotient_of x")
  have q: "0 < q" using pq by (rule quotient_of_denom_pos)
  have x: "x = of_int p / of_int q" using pq by (rule quotient_of_div)
  have p: "0 < p" using assms q x by (simp add: zero_less_divide_iff)
  let ?d = "bitlen p - bitlen q"
  note bp = of_int_bitlen_bounds[OF p] and bq = of_int_bitlen_bounds[OF q]
  have qpos: "(0::rat) < of_int q" using q by simp
  have up: "x < 2 powi (?d + 1)"
  proof -
    have "x < 2 powi (bitlen p) / of_int q" unfolding x using bp(2) qpos by (simp add: divide_strict_right_mono)
    also have "\<dots> \<le> 2 powi (bitlen p) / 2 powi (bitlen q - 1)"
      using bq(1) qpos by (intro divide_left_mono mult_pos_pos) simp_all
    also have "\<dots> = 2 powi (bitlen p - (bitlen q - 1))"
      by (subst power_int_diff) simp_all
    also have "bitlen p - (bitlen q - 1) = ?d + 1" by simp
    finally show ?thesis .
  qed
  have lo: "2 powi (?d - 1) \<le> x"
  proof -
    have "?d - 1 = bitlen p - 1 - bitlen q" by simp
    then have "(2::rat) powi (?d - 1) = 2 powi (bitlen p - 1 - bitlen q)" by (simp only:)
    also have "\<dots> = 2 powi (bitlen p - 1) / (2::rat) powi (bitlen q)"
      by (subst power_int_diff) simp_all
    also have "\<dots> \<le> 2 powi (bitlen p - 1) / of_int q"
      using bq(2) qpos by (intro divide_left_mono) simp_all
    also have "\<dots> \<le> x" unfolding x using bp(1) qpos by (simp add: divide_right_mono)
    finally show ?thesis .
  qed
  show "2 powi (f64_exponent x) \<le> x" using lo by (simp add: f64_exponent_def pq Let_def)
  show "x < 2 powi (f64_exponent x + 1)" using up
    by (auto simp add: f64_exponent_def pq Let_def not_le)
qed

lemma round_half_even_error: "\<bar>of_int (round_half_even q) - q\<bar> \<le> 1 / 2"
proof -
  have "of_int \<lfloor>q\<rfloor> \<le> q" "q < of_int \<lfloor>q\<rfloor> + 1" by linarith+
  then show ?thesis
    by (auto simp add: round_half_even_def Let_def abs_le_iff)
qed

lemma round_f64_pos_error:
  assumes "0 < x"
  shows "\<bar>round_f64_pos x - x\<bar> \<le> x / 2 ^ 53"
proof -
  let ?e = "f64_exponent x"
  let ?ulp = "(2::rat) powi (?e - 52)"
  have ulp: "0 < ?ulp" by simp
  have "\<bar>round_f64_pos x - x\<bar> = \<bar>of_int (round_half_even (x / ?ulp)) - x / ?ulp\<bar> * ?ulp"
  proof -
    have "round_f64_pos x - x = (of_int (round_half_even (x / ?ulp)) - x / ?ulp) * ?ulp"
      by (simp add: round_f64_pos_def Let_def algebra_simps)
    then show ?thesis using ulp by (simp add: abs_mult)
  qed
  also have "\<dots> \<le> (1 / 2) * ?ulp"
    using round_half_even_error[of "x / ?ulp"] ulp by (intro mult_right_mono) simp_all
  also have "\<dots> = 2 powi ?e / 2 ^ 53"
  proof -
    have "?ulp = 2 powi ?e / 2 powi 52" by (subst power_int_diff) simp_all
    then show ?thesis by simp
  qed
  also have "\<dots> \<le> x / 2 ^ 53"
    using f64_exponent_bounds(1)[OF assms] by (simp add: divide_right_mono)
  finally show ?thesis .
qed

lemma round_f64_error: "\<bar>round_f64 x - x\<bar> \<le> \<bar>x\<bar> / 2 ^ 53"
proof (cases "x = 0")
  case True
  then show ?thesis by (simp add: round_f64_def)
next
  case False
  show ?thesis
  proof (cases "0 < x")
    case True
    then show ?thesis using round_f64_pos_error[OF True] by (simp add: round_f64_def)
  next
    case neg: False
    then have p: "0 < - x" using False by simp
    have "\<bar>round_f64 x - x\<bar> = \<bar>round_f64_pos (- x) - (- x)\<bar>"
      using neg False by (simp add: round_f64_def abs_minus_commute)
    then show ?thesis using round_f64_pos_error[OF p] neg by simp
  qed
qed

lemma round_f64_between:
  assumes "0 \<le> x"
  shows "x * (1 - 1 / 2 ^ 53) \<le> round_f64 x" "round_f64 x \<le> x * (1 + 1 / 2 ^ 53)"
proof -
  define c :: rat where "c = 1 / 2 ^ 53"
  have "\<bar>round_f64 x - x\<bar> \<le> x * c"
    using round_f64_error[of x] assms by (simp add: c_def)
  then have "x - x * c \<le> round_f64 x" "round_f64 x \<le> x + x * c"
    by (simp_all add: abs_le_iff)
  then show "x * (1 - 1 / 2 ^ 53) \<le> round_f64 x" "round_f64 x \<le> x * (1 + 1 / 2 ^ 53)"
    unfolding c_def[symmetric] by (simp_all add: right_diff_distrib distrib_left)
qed

lemma percent_rounding_error:
  fixes H T :: rat
  assumes H: "0 \<le> H" and T: "0 < T"
  shows "\<bar>f64_mul (f64_div (round_f64 H) (round_f64 T)) 100 - H / T * 100\<bar>
           \<le> (H / T * 100) / 2 ^ 50"
proof -
  define u :: rat where "u = 1 / 2 ^ 53"
  have u: "0 < u" "u < 1" by (simp_all add: u_def)
  have k_up: "(1 + u) * (1 + u) * (1 + u) \<le> (1 + 8 * u) * (1 - u)" by (simp add: u_def)
  have k_lo: "(1 - 8 * u) * (1 + u) \<le> (1 - u) * (1 - u) * (1 - u)" by (simp add: u_def)
  define a where "a = round_f64 H"
  define b where "b = round_f64 T"
  define y where "y = f64_div a b"
  define z where "z = f64_mul y 100"
  define p where "p = H / T"
  have p0: "0 \<le> p" using H T by (simp add: p_def)
  have a: "H * (1 - u) \<le> a" "a \<le> H * (1 + u)"
    using round_f64_between[OF H] by (simp_all add: a_def u_def)
  have b: "T * (1 - u) \<le> b" "b \<le> T * (1 + u)"
    using round_f64_between[of T] T by (simp_all add: b_def u_def)
  have a0: "0 \<le> a" using a(1) H u by (meson diff_ge_0_iff_ge less_imp_le mult_nonneg_nonneg order_trans)
  have bl: "0 < T * (1 - u)" using T u by simp
  have b0: "0 < b" using bl b(1) by linarith
  have q0: "0 \<le> a / b" using a0 b0 by simp
  have q_up: "a / b \<le> p * ((1 + u) / (1 - u))"
  proof -
    have "0 \<le> H * (1 + u)" using H u by simp
    then have "a / b \<le> (H * (1 + u)) / (T * (1 - u))"
      by (rule frac_le[OF _ a(2) bl b(1)])
    then show ?thesis by (simp add: p_def)
  qed
  have q_lo: "p * ((1 - u) / (1 + u)) \<le> a / b"
  proof -
    have "(H * (1 - u)) / (T * (1 + u)) \<le> a / b"
      by (rule frac_le[OF a0 a(1) b0 b(2)])
    then show ?thesis by (simp add: p_def)
  qed
  have y: "a / b * (1 - u) \<le> y" "y \<le> a / b * (1 + u)"
    using round_f64_between[OF q0] by (simp_all add: y_def f64_div_def u_def)
  have y0: "0 \<le> y" using y(1) q0 u by (meson diff_ge_0_iff_ge less_imp_le mult_nonneg_nonneg order_trans)
  have y100: "0 \<le> y * 100" using y0 by simp
  have z: "y * 100 * (1 - u) \<le> z" "z \<le> y * 100 * (1 + u)"
    using round_f64_between[OF y100] by (simp_all add: z_def f64_mul_def u_def)
  have up: "z \<le> p * 100 * (1 + 8 * u)"
  proof -
    have "y \<le> p * ((1 + u) / (1 - u)) * (1 + u)"
      using y(2) q_up u by (meson add_nonneg_nonneg less_imp_le mult_right_mono order_trans zero_le_one)
    moreover have "0 \<le> 100 * (1 + u)" using u by simp
    ultimately have "y * (100 * (1 + u)) \<le> p * ((1 + u) / (1 - u)) * (1 + u) * (100 * (1 + u))"
      by (rule mult_right_mono)
    then have "y * 100 * (1 + u) \<le> p * ((1 + u) / (1 - u)) * (1 + u) * (100 * (1 + u))"
      by (simp only: mult.assoc)
    also have "\<dots> = p * 100 * (((1 + u) * (1 + u) * (1 + u)) / (1 - u))" by simp
    also have "\<dots> \<le> p * 100 * (1 + 8 * u)"
    proof -
      have "((1 + u) * (1 + u) * (1 + u)) / (1 - u) \<le> 1 + 8 * u"
        using k_up u by (simp add: pos_divide_le_eq)
      then show ?thesis using p0 by (intro mult_left_mono) simp_all
    qed
    finally show ?thesis using z(2) by linarith
  qed
  have lo: "p * 100 * (1 - 8 * u) \<le> z"
  proof -
    have "p * 100 * (1 - 8 * u) \<le> p * 100 * (((1 - u) * (1 - u) * (1 - u)) / (1 + u))"
    proof -
      have "1 - 8 * u \<le> ((1 - u) * (1 - u) * (1 - u)) / (1 + u)"
        using k_lo u by (simp add: pos_le_divide_eq)
      then show ?thesis using p0 by (intro mult_left_mono) simp_all
    qed
    also have "\<dots> = p * ((1 - u) / (1 + u)) * (1 - u) * 100 * (1 - u)" by simp
    also have "\<dots> \<le> y * 100 * (1 - u)"
    proof -
      have "p * ((1 - u) / (1 + u)) * (1 - u) \<le> y"
        using y(1) q_lo u by (meson diff_ge_0_iff_ge less_imp_le mult_right_mono order_trans)
      moreover have "0 \<le> 100 * (1 - u)" using u by simp
      ultimately have "p * ((1 - u) / (1 + u)) * (1 - u) * (100 * (1 - u)) \<le> y * (100 * (1 - u))"
        by (rule mult_right_mono)
      then show ?thesis by (simp only: mult.assoc)
    qed
    finally show ?thesis using z(1) by linarith
  qed
  have "\<bar>z - p * 100\<bar> \<le> p * 100 * (8 * u)"
    using up lo by (simp add: abs_le_iff algebra_simps)
  also have "p * 100 * (8 * u) = (p * 100) / 2 ^ 50" by (simp add: u_def)
  finally show ?thesis by (simp add: z_def y_def a_def b_def p_def)
qed

lemma round_f64_zero [simp]: "round_f64 0 = 0"
  by (simp add: round_f64_def)

lemma round_f64_abs_bounds:
  "\<bar>x\<bar> / 2 \<le> \<bar>round_f64 x\<bar>" "\<bar>round_f64 x\<bar> \<le> 2 * \<bar>x\<bar>"
proof -
  have e: "\<bar>round_f64 x - x\<bar> \<le> \<bar>x\<bar> / 2 ^ 53" by (rule round_f64_error)
  have "\<bar>x\<bar> / 2 ^ 53 \<le> \<bar>x\<bar> / 2" by (intro divide_left_mono) simp_all
  with e have h: "\<bar>round_f64 x - x\<bar> \<le> \<bar>x\<bar> / 2" by linarith
  show "\<bar>x\<bar> / 2 \<le> \<bar>round_f64 x\<bar>" using h by linarith
  show "\<bar>round_f64 x\<bar> \<le> 2 * \<bar>x\<bar>" using h by linarith
qed

lemma hit_rate_operands_in_range:
  fixes H T :: int
  assumes H: "\<bar>H\<bar> \<le> 2 ^ 63" and T: "0 < T" "T < 2 ^ 63"
  shows "f64_in_range (of_int H)"
    and "f64_in_range (of_int T)"
    and "float64_of_int T \<noteq> 0"
    and "f64_in_range (float64_of_int H / float64_of_int T)"
    and "f64_in_range (f64_div (float64_of_int H) (float64_of_int T) * 100)"
proof -
  define a where "a = float64_of_int H"
  define b where "b = float64_of_int T"
  define y where "y = f64_div a b"
  have Hr: "\<bar>of_int H :: rat\<bar> \<le> 2 ^ 63"
    using H by (metis of_int_abs of_int_le_iff of_int_numeral of_int_power)
  have Tr: "(1::rat) \<le> of_int T" "(of_int T :: rat) < 2 ^ 63"
    using T by (metis int_one_le_iff_zero_less of_int_1 of_int_le_iff,
                metis of_int_less_iff of_int_numeral of_int_power)
  have H1: "H \<noteq> 0 \<Longrightarrow> (1::rat) \<le> \<bar>of_int H\<bar>"
    by (metis abs_ge_zero abs_zero dual_order.antisym int_one_le_iff_zero_less not_le of_int_1 of_int_abs of_int_le_iff zero_less_abs_iff)
  show "f64_in_range (of_int H)"
    using Hr H1 by (cases "H = 0") (auto simp: f64_in_range_def intro: order_trans)
  show "f64_in_range (of_int T)"
    using Tr by (auto simp: f64_in_range_def intro: order_trans)
  have b: "1 / 2 \<le> \<bar>b\<bar>" "\<bar>b\<bar> \<le> 2 ^ 64"
    using round_f64_abs_bounds[of "of_int T"] Tr by (simp_all add: b_def float64_of_int_def)
  then show "float64_of_int T \<noteq> 0" by (auto simp: b_def)
  have a_up: "\<bar>a\<bar> \<le> 2 ^ 64"
    using round_f64_abs_bounds(2)[of "of_int H"] Hr by (simp add: a_def float64_of_int_def)
  have a_lo: "H \<noteq> 0 \<Longrightarrow> 1 / 2 \<le> \<bar>a\<bar>"
    using round_f64_abs_bounds(1)[of "of_int H"] H1 by (simp add: a_def float64_of_int_def)
  have a_zero: "H = 0 \<Longrightarrow> a = 0" by (simp add: a_def float64_of_int_def)
  have q_up: "\<bar>a / b\<bar> \<le> 2 ^ 65"
  proof -
    have "\<bar>a / b\<bar> = \<bar>a\<bar> / \<bar>b\<bar>" by simp
    also have "\<dots> \<le> 2 ^ 64 / (1 / 2)"
      using a_up b(1) by (intro frac_le) simp_all
    finally show ?thesis by simp
  qed
  have q_lo: "H \<noteq> 0 \<Longrightarrow> 1 / 2 ^ 65 \<le> \<bar>a / b\<bar>"
  proof -
    assume "H \<noteq> 0"
    then have al: "1 / 2 \<le> \<bar>a\<bar>" by (rule a_lo)
    have bp: "0 < \<bar>b\<bar>" using b(1) by linarith
    have "(1 / 2) / 2 ^ 64 \<le> \<bar>a\<bar> / \<bar>b\<bar>"
      by (rule frac_le[OF _ al bp b(2)]) simp
    then show ?thesis by simp
  qed
  show "f64_in_range (float64_of_int H / float64_of_int T)"
  proof (cases "H = 0")
    case True
    then show ?thesis using a_zero by (simp add: f64_in_range_def a_def)
  next
    case False
    have "(1::rat) / 2 ^ 1022 \<le> 1 / 2 ^ 65" by simp
    moreover have "(2::rat) ^ 65 \<le> 2 ^ 1023" by simp
    ultimately show ?thesis
      using q_lo[OF False] q_up unfolding f64_in_range_def a_def b_def by linarith
  qed
  have y_up: "\<bar>y\<bar> \<le> 2 ^ 66"
    using round_f64_abs_bounds(2)[of "a / b"] q_up by (simp add: y_def f64_div_def)
  have y_lo: "H \<noteq> 0 \<Longrightarrow> 1 / 2 ^ 66 \<le> \<bar>y\<bar>"
  proof -
    assume "H \<noteq> 0"
    then have "1 / 2 ^ 65 \<le> \<bar>a / b\<bar>" by (rule q_lo)
    then have "(1 / 2 ^ 65) / 2 \<le> \<bar>a / b\<bar> / 2" by (rule divide_right_mono) simp
    also have "\<dots> \<le> \<bar>y\<bar>"
      unfolding y_def f64_div_def by (rule round_f64_abs_bounds(1))
    finally show ?thesis by simp
  qed
  have y_zero: "H = 0 \<Longrightarrow> y = 0" using a_zero by (simp add: y_def f64_div_def)
  show "f64_in_range (f64_div (float64_of_int H) (float64_of_int T) * 100)"
  proof (cases "H = 0")
    case True
    then show ?thesis using y_zero by (simp add: f64_in_range_def y_def a_def b_def)
  next
    case False
    have "\<bar>y * 100\<bar> = \<bar>y\<bar> * 100" by (simp add: abs_mult)
    moreover have "(1::rat) / 2 ^ 1022 \<le> 1 / 2 ^ 66 * 100" by simp
    moreover have "(2::rat) ^ 66 * 100 \<le> 2 ^ 1023" by simp
    ultimately show ?thesis
      using y_lo[OF False] y_up unfolding f64_in_range_def y_def a_def b_def by linarith
  qed
qed

text \<open>Two hit rates, bit for bit: \<open>0x4049000000000000\<close> and \<open>0x4040aaaaaaaaaaaa\<close>.\<close>

lemma f64_percent_1_of_2:
  "f64_mul (f64_div (float64_of_int 1) (float64_of_int 2)) 100 = 50"
  by code_simp

lemma f64_percent_1_of_3:
  "f64_mul (f64_div (float64_of_int 1) (float64_of_int 3)) 100
     = 2345624805922133 / 70368744177664"
  by code_simp

subsection \<open>Counters\<close>

lemma sint_word_of_nat:
  assumes "n < 2 ^ 63" shows "sint (word_of_nat n :: 64 word) = int n"
proof -
  have "int n < 2 ^ 63" using assms by (metis of_nat_less_iff of_nat_numeral of_nat_power)
  then have "signed_take_bit 63 (int n) = int n"
    by (intro signed_take_bit_int_eq_self) simp_all
  then show ?thesis by (simp add: signed_of_nat)
qed

text \<open>
  Whenever \<open>GetStatistics\<close> takes the \<open>float64\<close> branch, the divisor is not zero and each
  of the four values it rounds is in the range where \<open>round_f64\<close> is the rounding of
  binary64.
\<close>

lemma GetStatistics_operands_in_range:
  assumes "0 <s hits (stats c) + misses (stats c)"
  shows "f64_in_range (of_int (sint (hits (stats c))))"
    and "f64_in_range (of_int (sint (hits (stats c) + misses (stats c))))"
    and "float64_of_int (sint (hits (stats c) + misses (stats c))) \<noteq> 0"
    and "f64_in_range (float64_of_int (sint (hits (stats c)))
           / float64_of_int (sint (hits (stats c) + misses (stats c))))"
    and "f64_in_range (f64_div (float64_of_int (sint (hits (stats c))))
           (float64_of_int (sint (hits (stats c) + misses (stats c)))) * 100)"
proof -
  have H: "\<bar>sint (hits (stats c))\<bar> \<le> 2 ^ 63"
    using sint_range_size[of "hits (stats c)"] by (simp add: word_size abs_le_iff)
  have T: "0 < sint (hits (stats c) + misses (stats c))"
    using assms by (simp add: word_sless_alt)
  have T': "sint (hits (stats c) + misses (stats c)) < 2 ^ 63"
    using sint_range_size[of "hits (stats c) + misses (stats c)"] by (simp add: word_size)
  note r = hit_rate_operands_in_range[OF H T T']
  show "f64_in_range (of_int (sint (hits (stats c))))" by (rule r(1))
  show "f64_in_range (of_int (sint (hits (stats c) + misses (stats c))))" by (rule r(2))
  show "float64_of_int (sint (hits (stats c) + misses (stats c))) \<noteq> 0" by (rule r(3))
  show "f64_in_range (float64_of_int (sint (hits (stats c)))
           / float64_of_int (sint (hits (stats c) + misses (stats c))))" by (rule r(4))
  show "f64_in_range (f64_div (float64_of_int (sint (hits (stats c))))
           (float64_of_int (sint (hits (stats c) + misses (stats c)))) * 100)" by (rule r(5))
qed

subsection \<open>The session registry\<close>

lemma len_sm_full: "len_sessions sm_full = 1"
  by code_simp

lemma len_cleanup_sm_full_16: "len_sessions (cleanupExpiredLocked 16 sm_full) = 0"
  by code_simp

lemma len_cleanup_sm_full_15: "len_sessions (cleanupExpiredLocked 15 sm_full) = 1"
  by code_simp

lemma cleanupExpiredLocked_lookup:
  "fmlookup (sessions (cleanupExpiredLocked now sm)) sid =
     (case fmlookup (sessions sm) sid of
        None \<Rightarrow> None
      | Some s \<Rightarrow> if After now (ExpiresAt s) then None else Some s)"
  by (simp add: cleanupExpiredLocked_def split: option.splits)

subsection \<open>The retry loop, one iteration at a time\<close>

lemma traced_fn: "fn (traced env) wt = (fst (fn env (fst wt)), (snd (fn env (fst wt)), snd wt @ [Invoked (fst (fn env (fst wt)))]))"
  by (simp add: traced_def split: prod.splits)

lemma traced_wait: "wait (traced env) b wt = (fst (wait env b (fst wt)), (snd (wait env b (fst wt)), snd wt @ [Waited b (fst (wait env b (fst wt)))]))"
  by (simp add: traced_def split: prod.splits)

lemma traced_errors: "errors (traced env) = errors env"
  by (simp add: traced_def)

lemma traced_nextBackoff: "nextBackoff (traced env) cfg b = nextBackoff env cfg b"
  by (simp add: nextBackoff_def traced_def)

lemma retry_loop_unfold:
  "retry_loop env cfg a b le w =
     (if a \<le> MaxRetries cfg then
        (case fst (fn env w) of
           None \<Rightarrow> (None, snd (fn env w))
         | Some err \<Rightarrow>
             if \<not> isRetryable (errors env) (Some err) then (Some (NonRetryable err), snd (fn env w))
             else if a = MaxRetries cfg
               then (Some (MaxRetriesExceeded (MaxRetries cfg) (Some err)), snd (fn env w))
             else (case fst (wait env b (snd (fn env w))) of
                     Some cerr \<Rightarrow> (Some (ContextCancelled (a + 1) cerr), snd (wait env b (snd (fn env w))))
                   | None \<Rightarrow>
                       retry_loop env cfg (a + 1) (nextBackoff env cfg b) (Some err)
                         (snd (wait env b (snd (fn env w))))))
      else (Some (MaxRetriesExceeded (MaxRetries cfg) le), w))"
  by (subst retry_loop.simps) (auto split: prod.splits option.splits)

lemma retry_loop_exit:
  "\<not> a \<le> MaxRetries cfg \<Longrightarrow> retry_loop env cfg a b le w = (Some (MaxRetriesExceeded (MaxRetries cfg) le), w)"
  by (simp add: retry_loop_unfold[of env cfg a])

lemma retry_loop_success:
  "a \<le> MaxRetries cfg \<Longrightarrow> fst (fn env w) = None \<Longrightarrow> retry_loop env cfg a b le w = (None, snd (fn env w))"
  by (simp add: retry_loop_unfold[of env cfg a])

lemma retry_loop_fatal:
  "a \<le> MaxRetries cfg \<Longrightarrow> fst (fn env w) = Some err \<Longrightarrow> \<not> isRetryable (errors env) (Some err)
   \<Longrightarrow> retry_loop env cfg a b le w = (Some (NonRetryable err), snd (fn env w))"
  by (simp add: retry_loop_unfold[of env cfg a])

lemma retry_loop_last:
  "a = MaxRetries cfg \<Longrightarrow> fst (fn env w) = Some err \<Longrightarrow> isRetryable (errors env) (Some err)
   \<Longrightarrow> retry_loop env cfg a b le w = (Some (MaxRetriesExceeded (MaxRetries cfg) (Some err)), snd (fn env w))"
  by (simp add: retry_loop_unfold[of env cfg "MaxRetries cfg"])

lemma retry_loop_cancel:
  "a < MaxRetries cfg \<Longrightarrow> fst (fn env w) = Some err \<Longrightarrow> isRetryable (errors env) (Some err)
   \<Longrightarrow> fst (wait env b (snd (fn env w))) = Some cerr
   \<Longrightarrow> retry_loop env cfg a b le w = (Some (ContextCancelled (a + 1) cerr), snd (wait env b (snd (fn env w))))"
  by (simp add: retry_loop_unfold[of env cfg a])

lemma retry_loop_again:
  "a < MaxRetries cfg \<Longrightarrow> fst (fn env w) = Some err \<Longrightarrow> isRetryable (errors env) (Some err)
   \<Longrightarrow> fst (wait env b (snd (fn env w))) = None
   \<Longrightarrow> retry_loop env cfg a b le w =
       retry_loop env cfg (a + 1) (nextBackoff env cfg b) (Some err) (snd (wait env b (snd (fn env w))))"
  by (simp add: retry_loop_unfold[of env cfg a])

lemma retry_loop_cases:
  obtains (exit) "\<not> a \<le> MaxRetries cfg"
  | (success) "a \<le> MaxRetries cfg" "fst (fn env w) = None"
  | (fatal) err where "a \<le> MaxRetries cfg" "fst (fn env w) = Some err" "\<not> isRetryable (errors env) (Some err)"
  | (last) err where "a = MaxRetries cfg" "fst (fn env w) = Some err" "isRetryable (errors env) (Some err)"
  | (cancel) err cerr where "a < MaxRetries cfg" "fst (fn env w) = Some err" "isRetryable (errors env) (Some err)"
      "fst (wait env b (snd (fn env w))) = Some cerr"
  | (again) err where "a < MaxRetries cfg" "fst (fn env w) = Some err" "isRetryable (errors env) (Some err)"
      "fst (wait env b (snd (fn env w))) = None"
  by (cases "fst (fn env w)"; cases "fst (wait env b (snd (fn env w)))"; force)

text \<open>The events of a run from \<open>(w, tr)\<close> are \<open>tr\<close> followed by those of the run from \<open>(w, [])\<close>.\<close>

lemma retry_loop_trace_append:
  "retry_loop (traced env) cfg a b le (w, tr) =
     (fst (retry_loop (traced env) cfg a b le (w, [])),
      fst (snd (retry_loop (traced env) cfg a b le (w, []))),
      tr @ snd (snd (retry_loop (traced env) cfg a b le (w, []))))"
proof (induction "nat (MaxRetries cfg + 1 - a)" arbitrary: a b le w tr)
  case 0
  then have "\<not> a \<le> MaxRetries cfg" by simp
  then show ?case by (simp add: retry_loop_exit)
next
  case (Suc n)
  then have le: "a \<le> MaxRetries cfg" by simp
  show ?case
  proof (cases rule: retry_loop_cases[where a=a and cfg=cfg and env=env and w=w and b=b])
    case exit
    then show ?thesis using le by simp
  next
    case success
    then show ?thesis
      by (simp add: retry_loop_success traced_fn)
  next
    case (fatal err)
    then show ?thesis
      by (simp add: retry_loop_fatal[where err=err] traced_fn traced_errors)
  next
    case (last err)
    then show ?thesis
      by (simp add: retry_loop_last[where err=err] traced_fn traced_errors)
  next
    case (cancel err cerr)
    then show ?thesis
      by (simp add: retry_loop_cancel[where err=err and cerr=cerr] traced_fn traced_errors traced_wait)
  next
    case (again err)
    have m: "n = nat (MaxRetries cfg + 1 - (a + 1))" using Suc(2) by simp
    let ?w2 = "snd (wait env b (snd (fn env w)))"
    let ?b' = "nextBackoff env cfg b"
    let ?ev = "[Invoked (Some err), Waited b None]"
    have step: "retry_loop (traced env) cfg a b le (w, tr')
                  = retry_loop (traced env) cfg (a + 1) ?b' (Some err) (?w2, tr' @ ?ev)" for tr'
      using again
      by (simp add: retry_loop_again[where err=err] traced_fn traced_errors traced_wait
            traced_nextBackoff)
    have IH1: "retry_loop (traced env) cfg (a + 1) ?b' (Some err) (?w2, tr @ ?ev) =
       (fst (retry_loop (traced env) cfg (a + 1) ?b' (Some err) (?w2, [])),
        fst (snd (retry_loop (traced env) cfg (a + 1) ?b' (Some err) (?w2, []))),
        (tr @ ?ev) @ snd (snd (retry_loop (traced env) cfg (a + 1) ?b' (Some err) (?w2, []))))"
      by (rule Suc(1)[OF m])
    have IH2: "retry_loop (traced env) cfg (a + 1) ?b' (Some err) (?w2, [] @ ?ev) =
       (fst (retry_loop (traced env) cfg (a + 1) ?b' (Some err) (?w2, [])),
        fst (snd (retry_loop (traced env) cfg (a + 1) ?b' (Some err) (?w2, []))),
        ([] @ ?ev) @ snd (snd (retry_loop (traced env) cfg (a + 1) ?b' (Some err) (?w2, []))))"
      by (rule Suc(1)[OF m])
    show ?thesis
      unfolding step[of tr] step[of "[]"] IH1 IH2 by simp
  qed
qed

lemma traced_simulates_loop:
  "fst (retry_loop (traced env) cfg a b le (w, tr)) = fst (retry_loop env cfg a b le w)
   \<and> fst (snd (retry_loop (traced env) cfg a b le (w, tr))) = snd (retry_loop env cfg a b le w)"
proof (induction "nat (MaxRetries cfg + 1 - a)" arbitrary: a b le w tr)
  case 0
  then have "\<not> a \<le> MaxRetries cfg" by simp
  then show ?case by (simp add: retry_loop_exit)
next
  case (Suc n)
  show ?case
  proof (cases rule: retry_loop_cases[where a=a and cfg=cfg and env=env and w=w and b=b])
    case exit
    then show ?thesis by (simp add: retry_loop_exit)
  next
    case success
    then show ?thesis by (simp add: retry_loop_success traced_fn)
  next
    case (fatal err)
    then show ?thesis by (simp add: retry_loop_fatal[where err=err] traced_fn traced_errors)
  next
    case (last err)
    then show ?thesis by (simp add: retry_loop_last[where err=err] traced_fn traced_errors)
  next
    case (cancel err cerr)
    then show ?thesis
      by (simp add: retry_loop_cancel[where err=err and cerr=cerr] traced_fn traced_errors traced_wait)
  next
    case (again err)
    have m: "n = nat (MaxRetries cfg + 1 - (a + 1))" using Suc(2) by simp
    from again show ?thesis
      by (simp add: retry_loop_again[where err=err] traced_fn traced_errors traced_wait
            traced_nextBackoff Suc(1)[OF m])
  qed
qed

lemma run_trace_again:
  assumes "a < MaxRetries cfg" "fst (fn env w) = Some err" "isRetryable (errors env) (Some err)"
    "fst (wait env b (snd (fn env w))) = None"
  shows "run_trace env cfg a b le w =
     Invoked (Some err) # Waited b None #
       run_trace env cfg (a + 1) (nextBackoff env cfg b) (Some err) (snd (wait env b (snd (fn env w))))"
proof -
  have "retry_loop (traced env) cfg a b le (w, [])
          = retry_loop (traced env) cfg (a + 1) (nextBackoff env cfg b) (Some err)
              (snd (wait env b (snd (fn env w))), [Invoked (Some err), Waited b None])"
    using assms
    by (simp add: retry_loop_again[where err=err] traced_fn traced_errors traced_wait
          traced_nextBackoff)
  then show ?thesis
    unfolding run_trace_def
    by (simp add: retry_loop_trace_append[where tr="[Invoked (Some err), Waited b None]"])
qed

lemma loop_always_failing:
  assumes retry: "\<forall>w. isRetryable (errors env) (fst (fn env w))"
    and nocancel: "\<forall>b w. fst (wait env b w) = None"
    and le: "a \<le> MaxRetries cfg"
  shows "length (invocations (run_trace env cfg a b le w)) = nat (MaxRetries cfg - a) + 1
       \<and> fst (retry_loop env cfg a b le w)
           = Some (MaxRetriesExceeded (MaxRetries cfg) (last (invocations (run_trace env cfg a b le w))))
       \<and> last (invocations (run_trace env cfg a b le w)) \<noteq> None"
  using le
proof (induction "nat (MaxRetries cfg - a)" arbitrary: a b le w)
  case 0
  then have eq: "a = MaxRetries cfg" by simp
  from retry obtain err where e: "fst (fn env w) = Some err" "isRetryable (errors env) (Some err)"
    by (cases "fst (fn env w)") (auto simp: isRetryable_def dest: spec[of _ w])
  show ?case using eq e
    by (simp add: run_trace_def retry_loop_last[where err=err] traced_fn traced_errors)
next
  case (Suc n)
  then have lt: "a < MaxRetries cfg" by simp
  from retry obtain err where e: "fst (fn env w) = Some err" "isRetryable (errors env) (Some err)"
    by (cases "fst (fn env w)") (auto simp: isRetryable_def dest: spec[of _ w])
  have nc: "fst (wait env b (snd (fn env w))) = None" using nocancel by simp
  have m: "n = nat (MaxRetries cfg - (a + 1))" using Suc(2) by simp
  have le': "a + 1 \<le> MaxRetries cfg" using lt by simp
  note IH = Suc(1)[OF m le', of "nextBackoff env cfg b" "Some err" "snd (wait env b (snd (fn env w)))"]
  have ne: "invocations (run_trace env cfg (a + 1) (nextBackoff env cfg b) (Some err) (snd (wait env b (snd (fn env w))))) \<noteq> []"
    using IH by auto
  show ?case
    using IH ne lt Suc(2)
    by (simp add: run_trace_again[OF lt e nc] retry_loop_again[OF lt e nc])
qed

lemma checks_run_trace:
  "checks_follow_failures (errors env) None (run_trace env cfg a b le w)"
proof (induction "nat (MaxRetries cfg + 1 - a)" arbitrary: a b le w)
  case 0
  then have "\<not> a \<le> MaxRetries cfg" by simp
  then show ?case by (simp add: run_trace_def retry_loop_exit)
next
  case (Suc n)
  show ?case
  proof (cases rule: retry_loop_cases[where a=a and cfg=cfg and env=env and w=w and b=b])
    case exit
    then show ?thesis by (simp add: run_trace_def retry_loop_exit)
  next
    case success
    then show ?thesis by (simp add: run_trace_def retry_loop_success traced_fn)
  next
    case (fatal err)
    then show ?thesis by (simp add: run_trace_def retry_loop_fatal[where err=err] traced_fn traced_errors)
  next
    case (last err)
    then show ?thesis by (simp add: run_trace_def retry_loop_last[where err=err] traced_fn traced_errors)
  next
    case (cancel err cerr)
    then show ?thesis
      by (simp add: run_trace_def retry_loop_cancel[where err=err and cerr=cerr] traced_fn traced_errors traced_wait)
  next
    case (again err)
    have m: "n = nat (MaxRetries cfg + 1 - (a + 1))" using Suc(2) by simp
    from again show ?thesis
      by (simp add: run_trace_again[OF again] Suc(1)[OF m])
  qed
qed

lemma first_event_invoked:
  assumes "a \<le> MaxRetries cfg"
  shows "\<exists>es. run_trace env cfg a b le w = Invoked (fst (fn env w)) # es"
proof (cases rule: retry_loop_cases[where a=a and cfg=cfg and env=env and w=w and b=b])
  case exit
  then show ?thesis using assms by simp
next
  case success
  then show ?thesis by (simp add: run_trace_def retry_loop_success traced_fn)
next
  case (fatal err)
  then show ?thesis by (simp add: run_trace_def retry_loop_fatal[where err=err] traced_fn traced_errors)
next
  case (last err)
  then show ?thesis by (simp add: run_trace_def retry_loop_last[where err=err] traced_fn traced_errors)
next
  case (cancel err cerr)
  then show ?thesis
    by (simp add: run_trace_def retry_loop_cancel[where err=err and cerr=cerr] traced_fn traced_errors traced_wait)
next
  case (again err)
  then show ?thesis by (simp add: run_trace_again[OF again])
qed

lemma isRetryable_nil: "\<not> isRetryable errs None"
  by (simp add: isRetryable_def)

text \<open>
  Observing a run does not change it: the observed run returns the error and leaves the
  world that the plain run does.
\<close>

lemma RetryWithBackoff_traced_simulates:
  "fst (RetryWithBackoff (traced env) cfg0 (w, tr)) = fst (RetryWithBackoff env cfg0 w)
   \<and> fst (snd (RetryWithBackoff (traced env) cfg0 (w, tr))) = snd (RetryWithBackoff env cfg0 w)"
  by (simp add: RetryWithBackoff_def Let_def traced_simulates_loop)

text \<open>A run with two retries, event by event; the backoff doubles from 100 ms.\<close>

lemma two_retries_run:
  "RetryWithBackoff (traced (failing_env Timeout False)) (Some two_retries) (0, [])
     = (Some (MaxRetriesExceeded 2 (Some Timeout)),
        (3, [Invoked (Some Timeout), Waited 100000000 None, Invoked (Some Timeout),
             Waited 200000000 None, Invoked (Some Timeout)]))"
  by (simp add: RetryWithBackoff_def config_or_default_def two_retries_def DefaultRetryConfig_def
        retry_loop_unfold failing_env_def traced_def isRetryable_def reason_errors_def
        nextBackoff_def Millisecond_def Second_def)

section \<open>The claims\<close>

subsection \<open>The cache\<close>

text \<open>
  Claim C1, as the code has it. \<open>GetStatistics\<close> computes the hit rate from the counters
  at the time of the call. The rate is 0 when the \<open>int64\<close> sum \<open>hits + misses\<close>, which
  wraps, is not positive, and so when \<open>hits + misses = 0\<close>. Otherwise it is the
  \<open>float64\<close> value of \<open>float64(hits) / float64(hits + misses) * 100\<close>, a percentage, with
  both conversions, the division and the multiplication rounded. For counters \<open>h\<close> and
  \<open>m\<close> that are not negative and whose sum is positive and below \<open>2^63\<close>, that value is
  within a fraction \<open>2^-50\<close> of the exact percentage \<open>100 * h / (h + m)\<close>.
\<close>

theorem GetStatistics_hitRate_percent:
  "(\<not> 0 <s hits (stats c) + misses (stats c) \<longrightarrow> HitRate (GetStatistics c) = 0)
   \<and> (hits (stats c) + misses (stats c) = 0 \<longrightarrow> HitRate (GetStatistics c) = 0)
   \<and> (0 <s hits (stats c) + misses (stats c) \<longrightarrow>
        HitRate (GetStatistics c)
          = f64_mul (f64_div (float64_of_int (sint (hits (stats c))))
                       (float64_of_int (sint (hits (stats c) + misses (stats c))))) 100)
   \<and> (hits (stats c) = word_of_nat h \<and> misses (stats c) = word_of_nat m
        \<and> 0 < h + m \<and> h + m < 2 ^ 63
      \<longrightarrow> \<bar>HitRate (GetStatistics c) - of_nat h / of_nat (h + m) * 100\<bar>
            \<le> (of_nat h / of_nat (h + m) * 100) / 2 ^ 50)"
proof (intro conjI impI)
  assume "\<not> 0 <s hits (stats c) + misses (stats c)"
  then show "HitRate (GetStatistics c) = 0"
    by (simp add: GetStatistics_def Let_def)
next
  assume "hits (stats c) + misses (stats c) = 0"
  then show "HitRate (GetStatistics c) = 0"
    by (simp add: GetStatistics_def word_sless_alt)
next
  assume "0 <s hits (stats c) + misses (stats c)"
  then show "HitRate (GetStatistics c)
          = f64_mul (f64_div (float64_of_int (sint (hits (stats c))))
                       (float64_of_int (sint (hits (stats c) + misses (stats c))))) 100"
    by (simp add: GetStatistics_def Let_def)
next
  assume a: "hits (stats c) = word_of_nat h \<and> misses (stats c) = word_of_nat m
        \<and> 0 < h + m \<and> h + m < 2 ^ 63"
  then have t: "hits (stats c) + misses (stats c) = word_of_nat (h + m)" by simp
  have st: "sint (hits (stats c) + misses (stats c)) = int (h + m)"
    unfolding t using a by (intro sint_word_of_nat) simp
  have sh: "sint (hits (stats c)) = int h"
    using a by (simp add: sint_word_of_nat)
  from a have pos: "0 < h + m" by simp
  have lt: "0 <s hits (stats c) + misses (stats c)"
  proof -
    have "(0::int) < int (h + m)" using pos by (simp only: of_nat_0_less_iff)
    then show ?thesis by (simp only: word_sless_alt st sint_0)
  qed
  have "HitRate (GetStatistics c)
      = f64_mul (f64_div (float64_of_int (sint (hits (stats c))))
                   (float64_of_int (sint (hits (stats c) + misses (stats c))))) 100"
    using lt by (simp add: GetStatistics_def Let_def)
  then have rate: "HitRate (GetStatistics c)
      = f64_mul (f64_div (round_f64 (of_nat h)) (round_f64 (of_nat (h + m)))) 100"
    by (simp only: st sh float64_of_int_def of_int_of_nat_eq)
  have H: "(0::rat) \<le> of_nat h" by simp
  have T: "(0::rat) < of_nat (h + m)" using pos by (simp only: of_nat_0_less_iff)
  show "\<bar>HitRate (GetStatistics c) - of_nat h / of_nat (h + m) * 100\<bar>
            \<le> (of_nat h / of_nat (h + m) * 100) / 2 ^ 50"
    unfolding rate by (rule percent_rounding_error[OF H T])
qed

theorem GetStatistics_hitRate_percent_witness:
  "HitRate (GetStatistics (NewMemoryCache 60 :: int MemoryCache)) = 0
   \<and> HitRate (GetStatistics cache_stats_1_2) = 2345624805922133 / 70368744177664
   \<and> \<bar>HitRate (GetStatistics cache_stats_1_2) - 1 / 3 * 100\<bar> \<le> (1 / 3 * 100) / 2 ^ 50"
  using GetStatistics_hitRate_percent[of "NewMemoryCache 60 :: int MemoryCache" 0 0]
    GetStatistics_hitRate_percent[of cache_stats_1_2 1 2]
  by (simp add: cache_stats_1_2_def NewMemoryCache_def word_sless_alt f64_percent_1_of_3)

text \<open>
  After one hit and one miss the hit rate returned is 50, where the quotient
  \<open>hits / (hits + misses)\<close> is one half: the source multiplies the quotient by 100.
\<close>

theorem GetStatistics_hitRate_counterexample:
  "HitRate (GetStatistics cache_stats_1_1) = 50
   \<and> rat_of_int (sint (hits (stats cache_stats_1_1)))
       / rat_of_int (sint (hits (stats cache_stats_1_1) + misses (stats cache_stats_1_1))) = 1 / 2"
  by (simp add: GetStatistics_def cache_stats_1_1_def NewMemoryCache_def word_sless_alt
        f64_percent_1_of_2)

text \<open>
  Claim C2, as the code has it. \<open>Delete\<close> on an absent key leaves the whole cache, and so
  the evictions counter, unchanged. On a present key it removes that entry and no other
  and adds exactly 1 to the evictions counter (an \<open>int64\<close>). It returns no value.
\<close>

theorem Delete_evictions:
  "(fmlookup (data c) key = None \<longrightarrow> snd (Delete key c) = c)
   \<and> (fmlookup (data c) key \<noteq> None \<longrightarrow>
        fmlookup (data (snd (Delete key c))) key = None
      \<and> data (snd (Delete key c)) = fmdrop key (data c)
      \<and> evictions (stats (snd (Delete key c))) = evictions (stats c) + 1)"
  by (auto simp: Delete_def split: option.splits)

theorem Delete_evictions_witness:
  "snd (Delete ''b'' cache_a) = cache_a
   \<and> fmlookup (data (snd (Delete ''a'' cache_a))) ''a'' = None
   \<and> data (snd (Delete ''a'' cache_a)) = fmdrop ''a'' (data cache_a)
   \<and> evictions (stats (snd (Delete ''a'' cache_a))) = 1"
  using Delete_evictions[of cache_a "''b''"] Delete_evictions[of cache_a "''a''"]
  by (simp add: cache_a_def SetWithTTL_def NewMemoryCache_def)

text \<open>
  \<open>Delete\<close> has no result: what it hands back for a present key and for an absent key
  is the same, so it is not \<open>true\<close> for the one and \<open>false\<close> for the other.
\<close>

theorem Delete_returns_nothing_counterexample:
  "fmlookup (data cache_a) ''a'' \<noteq> None \<and> fmlookup (data cache_a) ''b'' = None
   \<and> fst (Delete ''a'' cache_a) = fst (Delete ''b'' cache_a)"
  by (simp add: cache_a_def SetWithTTL_def NewMemoryCache_def)

text \<open>
  Claim C4. When the entry of a key is present and expired at the clock reading of the
  lookup, \<open>Get\<close> returns \<open>(nil, false)\<close>, adds 1 to \<open>misses\<close>, leaves \<open>hits\<close> and
  \<open>evictions\<close> as they were, and leaves the entry map, with the expired entry in it,
  untouched.
\<close>

theorem Get_expired_is_miss:
  assumes "fmlookup (data c) key = Some e" and "After now (Expiration e)"
  shows "fst (Get now key c) = (None, False)
       \<and> misses (stats (snd (Get now key c))) = misses (stats c) + 1
       \<and> hits (stats (snd (Get now key c))) = hits (stats c)
       \<and> evictions (stats (snd (Get now key c))) = evictions (stats c)
       \<and> data (snd (Get now key c)) = data c
       \<and> fmlookup (data (snd (Get now key c))) key = Some e"
  using assms by (simp add: Get_def IsExpired_def)

theorem Get_expired_is_miss_witness:
  "fst (Get 61 ''a'' cache_a) = (None, False)
       \<and> misses (stats (snd (Get 61 ''a'' cache_a))) = 1
       \<and> hits (stats (snd (Get 61 ''a'' cache_a))) = 0
       \<and> evictions (stats (snd (Get 61 ''a'' cache_a))) = 0
       \<and> data (snd (Get 61 ''a'' cache_a)) = data cache_a
       \<and> fmlookup (data (snd (Get 61 ''a'' cache_a))) ''a'' = Some \<lparr>Value = 1, Expiration = 60\<rparr>"
  using Get_expired_is_miss[of cache_a "''a''" "\<lparr>Value = 1, Expiration = 60\<rparr>" 61]
  by (simp add: cache_a_def SetWithTTL_def NewMemoryCache_def After_def Add_def)

text \<open>
  Claim C6, for \<open>GetOrSet\<close> and \<open>GetOrSetWithTTL\<close> alike, and for every \<open>compute\<close>.
  On a hit (the key has an entry that is not expired at \<open>t_get\<close>) the cached value comes
  back with a \<open>nil\<close> error, and the state \<open>compute\<close> works on is the one before the call:
  \<open>compute\<close> has not run. On a miss (no entry, or an expired one) \<open>compute\<close> runs once, on
  the state before the call. If it fails, its error comes back and the entry map is the
  one before the call. If it succeeds, its value comes back and the entry map holds that
  value under the key, expiring one TTL after the clock reading of the store.
\<close>

theorem GetOrSet_hit_miss:
  fixes compute :: "'w \<Rightarrow> ('e + 'v) \<times> 'w" and c :: "'v MemoryCache"
  shows
  "(\<forall>e. fmlookup (data c) key = Some e \<and> \<not> IsExpired t_get e \<longrightarrow>
       fst (GetOrSet t_get t_set key compute (c, w)) = (Some (Value e), None)
     \<and> snd (snd (GetOrSet t_get t_set key compute (c, w))) = w
     \<and> fst (GetOrSetWithTTL t_get t_set key ttl0 compute (c, w)) = (Some (Value e), None)
     \<and> snd (snd (GetOrSetWithTTL t_get t_set key ttl0 compute (c, w))) = w)
   \<and> ((\<forall>e. fmlookup (data c) key = Some e \<longrightarrow> IsExpired t_get e) \<longrightarrow>
       (\<forall>err w1. compute w = (Inl err, w1) \<longrightarrow>
           fst (GetOrSet t_get t_set key compute (c, w)) = (None, Some err)
         \<and> data (fst (snd (GetOrSet t_get t_set key compute (c, w)))) = data c
         \<and> snd (snd (GetOrSet t_get t_set key compute (c, w))) = w1
         \<and> fst (GetOrSetWithTTL t_get t_set key ttl0 compute (c, w)) = (None, Some err)
         \<and> data (fst (snd (GetOrSetWithTTL t_get t_set key ttl0 compute (c, w)))) = data c
         \<and> snd (snd (GetOrSetWithTTL t_get t_set key ttl0 compute (c, w))) = w1)
     \<and> (\<forall>v w1. compute w = (Inr v, w1) \<longrightarrow>
           fst (GetOrSet t_get t_set key compute (c, w)) = (Some v, None)
         \<and> data (fst (snd (GetOrSet t_get t_set key compute (c, w))))
             = fmupd key \<lparr>Value = v, Expiration = Add t_set (defaultTTL c)\<rparr> (data c)
         \<and> snd (snd (GetOrSet t_get t_set key compute (c, w))) = w1
         \<and> fst (GetOrSetWithTTL t_get t_set key ttl0 compute (c, w)) = (Some v, None)
         \<and> data (fst (snd (GetOrSetWithTTL t_get t_set key ttl0 compute (c, w))))
             = fmupd key \<lparr>Value = v, Expiration = Add t_set ttl0\<rparr> (data c)
         \<and> snd (snd (GetOrSetWithTTL t_get t_set key ttl0 compute (c, w))) = w1))"
proof -
  have hit: "Get t_get key c = ((Some (Value e), True), c\<lparr>stats := (stats c)\<lparr>hits := hits (stats c) + 1\<rparr>\<rparr>)"
    if "fmlookup (data c) key = Some e" "\<not> IsExpired t_get e" for e
    using that by (simp add: Get_def)
  have miss: "Get t_get key c = ((None, False), c\<lparr>stats := (stats c)\<lparr>misses := misses (stats c) + 1\<rparr>\<rparr>)"
    if "\<forall>e. fmlookup (data c) key = Some e \<longrightarrow> IsExpired t_get e"
    using that by (cases "fmlookup (data c) key") (simp_all add: Get_def)
  show ?thesis
    by (intro conjI allI impI)
       (simp_all add: GetOrSet_def GetOrSetWithTTL_def hit miss Set_cache_def SetWithTTL_def)
qed

theorem GetOrSet_hit_miss_witness:
  "fst (GetOrSet 30 31 ''a'' compute_ok (cache_a, 0)) = (Some 1, None)
   \<and> snd (snd (GetOrSet 30 31 ''a'' compute_ok (cache_a, 0))) = 0
   \<and> fst (GetOrSetWithTTL 30 31 ''a'' 5 compute_ok (cache_a, 0)) = (Some 1, None)
   \<and> snd (snd (GetOrSetWithTTL 30 31 ''a'' 5 compute_ok (cache_a, 0))) = 0
   \<and> fst (GetOrSet 70 71 ''a'' compute_fail (cache_a, 0)) = (None, Some ''upstream down'')
   \<and> data (fst (snd (GetOrSet 70 71 ''a'' compute_fail (cache_a, 0)))) = data cache_a
   \<and> snd (snd (GetOrSet 70 71 ''a'' compute_fail (cache_a, 0))) = 1
   \<and> fst (GetOrSetWithTTL 70 71 ''a'' 5 compute_fail (cache_a, 0)) = (None, Some ''upstream down'')
   \<and> data (fst (snd (GetOrSetWithTTL 70 71 ''a'' 5 compute_fail (cache_a, 0)))) = data cache_a
   \<and> snd (snd (GetOrSetWithTTL 70 71 ''a'' 5 compute_fail (cache_a, 0))) = 1
   \<and> fst (GetOrSet 70 71 ''b'' compute_ok (cache_a, 0)) = (Some 7, None)
   \<and> data (fst (snd (GetOrSet 70 71 ''b'' compute_ok (cache_a, 0))))
       = fmupd ''b'' \<lparr>Value = 7, Expiration = 131\<rparr> (data cache_a)
   \<and> snd (snd (GetOrSet 70 71 ''b'' compute_ok (cache_a, 0))) = 1
   \<and> fst (GetOrSetWithTTL 70 71 ''b'' 5 compute_ok (cache_a, 0)) = (Some 7, None)
   \<and> data (fst (snd (GetOrSetWithTTL 70 71 ''b'' 5 compute_ok (cache_a, 0))))
       = fmupd ''b'' \<lparr>Value = 7, Expiration = 76\<rparr> (data cache_a)
   \<and> snd (snd (GetOrSetWithTTL 70 71 ''b'' 5 compute_ok (cache_a, 0))) = 1"
  using GetOrSet_hit_miss[of cache_a "''a''" 30 31 compute_ok 0 5]
    GetOrSet_hit_miss[of cache_a "''a''" 70 71 compute_fail 0 5]
    GetOrSet_hit_miss[of cache_a "''b''" 70 71 compute_ok 0 5]
  by (simp add: cache_a_def SetWithTTL_def NewMemoryCache_def IsExpired_def After_def Add_def
        compute_ok_def compute_fail_def)

subsection \<open>The session registry\<close>

text \<open>
  Claim C3. The code does not keep it. A touch of a registered session that is not
  expired returns \<open>true\<close>, but \<open>TouchSession\<close> reads the clock once for \<open>LastUsed\<close> and
  once more for \<open>ExpiresAt\<close>: with the clock at 7 and then at 8 and a TTL of 10, the
  session ends with \<open>LastUsed = 7\<close> and \<open>ExpiresAt = 18\<close>, where \<open>LastUsed + ttl\<close> is 17.
  \<open>CreateSession\<close> takes one reading for both fields, and there the equation holds
  (\<open>CreateSession_expiry_from_one_reading\<close> below).
\<close>

theorem TouchSession_two_clock_readings:
  "fst (TouchSession 6 7 8 ''01ab'' sm_full) = True
   \<and> map_option (\<lambda>s. (LastUsed s, ExpiresAt s, LastUsed s + ttl sm_full))
        (fmlookup (sessions (snd (TouchSession 6 7 8 ''01ab'' sm_full))) ''01ab'')
      = Some (7, 18, 17)"
  by (simp add: TouchSession_def sm_full_def session_01ab_def After_def Add_def)

text \<open>
  The session that \<open>CreateSession\<close> returns has \<open>ExpiresAt = LastUsed + ttl\<close>, both from
  the one reading \<open>now\<close>, and is the session stored under its id.
\<close>

lemma CreateSession_expiry_from_one_reading:
  assumes "CreateSession metadata rnd t_cleanup now sm = (Inr s, sm')"
  shows "LastUsed s = now \<and> CreatedAt s = now \<and> ExpiresAt s = LastUsed s + ttl sm
       \<and> fmlookup (sessions sm') (ID s) = Some s"
proof -
  have keep: "ttl (cleanupExpiredLocked t_cleanup sm) = ttl sm"
    by (simp add: cleanupExpiredLocked_def)
  have store: "LastUsed s = now \<and> CreatedAt s = now \<and> ExpiresAt s = LastUsed s + ttl sm0
       \<and> fmlookup (sessions sm') (ID s) = Some s"
    if "storeNewSession metadata rnd now sm0 = (Inr s, sm')" for sm0
    using that
    by (auto simp: storeNewSession_def Let_def Add_def split: sum.splits)
  show ?thesis
    using assms store[of sm] store[of "cleanupExpiredLocked t_cleanup sm"] keep
    by (auto simp: CreateSession_def Let_def split: if_splits)
qed

text \<open>
  What \<open>TouchSession\<close> does, case by case. On an unknown id it returns \<open>false\<close> and changes
  nothing. On an id whose session is expired at the clock reading of the check it removes
  the session and returns \<open>false\<close>. On a registered session that is not expired it
  returns \<open>true\<close> and sets \<open>LastUsed\<close> to the second reading and \<open>ExpiresAt\<close> to the third
  reading plus the TTL, so that \<open>ExpiresAt\<close> differs from \<open>LastUsed + ttl\<close> by the time
  between these two readings.
\<close>

lemma TouchSession_outcomes:
  "(fmlookup (sessions sm) sessionID = None \<longrightarrow>
      TouchSession t_check t_used t_expiry sessionID sm = (False, sm))
   \<and> (\<forall>s. fmlookup (sessions sm) sessionID = Some s \<and> After t_check (ExpiresAt s) \<longrightarrow>
         fst (TouchSession t_check t_used t_expiry sessionID sm) = False
       \<and> sessions (snd (TouchSession t_check t_used t_expiry sessionID sm))
           = fmdrop sessionID (sessions sm)
       \<and> fmlookup (sessions (snd (TouchSession t_check t_used t_expiry sessionID sm))) sessionID
           = None)
   \<and> (\<forall>s. fmlookup (sessions sm) sessionID = Some s \<and> \<not> After t_check (ExpiresAt s) \<longrightarrow>
         fst (TouchSession t_check t_used t_expiry sessionID sm) = True
       \<and> fmlookup (sessions (snd (TouchSession t_check t_used t_expiry sessionID sm))) sessionID
           = Some (s\<lparr>LastUsed := t_used, ExpiresAt := t_expiry + ttl sm\<rparr>)
       \<and> map_option (\<lambda>s'. (LastUsed s', ExpiresAt s' - (LastUsed s' + ttl sm)))
             (fmlookup (sessions (snd (TouchSession t_check t_used t_expiry sessionID sm)))
                sessionID)
           = Some (t_used, t_expiry - t_used))"
  by (simp add: TouchSession_def Add_def)

text \<open>
  Claim C5, as the code has it. Let the number of stored sessions be at or above the
  maximum. \<open>CreateSession\<close> first drops exactly the sessions that are expired at the
  clock reading of the sweep. If the number left is still at or above the maximum, it
  returns the capacity error and the registry is the swept one, with no new session.
  Otherwise the outcome follows the random source: when it yields the id bytes, the
  session with that id in hexadecimal, \<open>CreatedAt = LastUsed = now\<close> and
  \<open>ExpiresAt = now + ttl\<close> is stored in the swept registry and returned; when it fails,
  the id-generation error is returned and the registry is the swept one.
\<close>

theorem CreateSession_at_capacity:
  assumes "maxSessons sm \<le> len_sessions sm"
  shows
  "fmlookup (sessions (cleanupExpiredLocked t_cleanup sm)) sid =
       (case fmlookup (sessions sm) sid of
          None \<Rightarrow> None
        | Some s \<Rightarrow> if After t_cleanup (ExpiresAt s) then None else Some s)
   \<and> (maxSessons sm \<le> len_sessions (cleanupExpiredLocked t_cleanup sm) \<longrightarrow>
        CreateSession metadata rnd t_cleanup now sm
          = (Inl (MaxSessionsReached (maxSessons sm)), cleanupExpiredLocked t_cleanup sm))
   \<and> (len_sessions (cleanupExpiredLocked t_cleanup sm) < maxSessons sm \<longrightarrow>
        (\<forall>bytes. rnd = Inr bytes \<longrightarrow>
           CreateSession metadata rnd t_cleanup now sm
             = (Inr \<lparr>ID = EncodeToString bytes, CreatedAt = now, ExpiresAt = now + ttl sm,
                     LastUsed = now, Metadata = metadata\<rparr>,
                (cleanupExpiredLocked t_cleanup sm)
                  \<lparr>sessions := fmupd (EncodeToString bytes)
                      \<lparr>ID = EncodeToString bytes, CreatedAt = now, ExpiresAt = now + ttl sm,
                        LastUsed = now, Metadata = metadata\<rparr>
                      (sessions (cleanupExpiredLocked t_cleanup sm))\<rparr>))
      \<and> (\<forall>err. rnd = Inl err \<longrightarrow>
           CreateSession metadata rnd t_cleanup now sm
             = (Inl (SessionIDFailed err), cleanupExpiredLocked t_cleanup sm)))"
proof -
  have keep: "maxSessons (cleanupExpiredLocked t_cleanup sm) = maxSessons sm"
    "ttl (cleanupExpiredLocked t_cleanup sm) = ttl sm"
    by (simp_all add: cleanupExpiredLocked_def)
  show ?thesis
    using assms
    by (intro conjI allI impI)
       (simp_all add: cleanupExpiredLocked_lookup CreateSession_def Let_def keep
          storeNewSession_def generateSessionID_def Add_def)
qed

theorem CreateSession_at_capacity_witness:
  "fmlookup (sessions (cleanupExpiredLocked 16 sm_full)) ''01ab'' = None
   \<and> fmlookup (sessions (cleanupExpiredLocked 15 sm_full)) ''01ab'' = Some session_01ab
   \<and> CreateSession () (Inr [0x02, 0xcd] :: string + 8 word list) 15 17 sm_full
       = (Inl (MaxSessionsReached 1), cleanupExpiredLocked 15 sm_full)
   \<and> CreateSession () (Inr [0x02, 0xcd] :: string + 8 word list) 16 17 sm_full
       = (Inr \<lparr>ID = ''02cd'', CreatedAt = 17, ExpiresAt = 27, LastUsed = 17, Metadata = ()\<rparr>,
          (cleanupExpiredLocked 16 sm_full)
            \<lparr>sessions := fmupd ''02cd''
                \<lparr>ID = ''02cd'', CreatedAt = 17, ExpiresAt = 27, LastUsed = 17, Metadata = ()\<rparr>
                (sessions (cleanupExpiredLocked 16 sm_full))\<rparr>)
   \<and> CreateSession () (Inl ''entropy'') 16 17 sm_full
       = (Inl (SessionIDFailed ''entropy''), cleanupExpiredLocked 16 sm_full)"
proof -
  have cap: "maxSessons sm_full \<le> len_sessions sm_full"
    by (simp add: len_sm_full) (simp add: sm_full_def)
  have ms: "maxSessons sm_full = 1" "ttl sm_full = 10" by (simp_all add: sm_full_def)
  have lk: "fmlookup (sessions sm_full) ''01ab'' = Some session_01ab" by (simp add: sm_full_def)
  have ex: "ExpiresAt session_01ab = 15" by (simp add: session_01ab_def)
  have enc: "EncodeToString [0x02, 0xcd] = ''02cd''" by (simp add: EncodeToString_def hextable_def)
  show ?thesis
    using CreateSession_at_capacity[OF cap, of 16 "''01ab''" "()" "Inl ''entropy''" 17]
      CreateSession_at_capacity[OF cap, of 16 "''01ab''" "()" "Inr [0x02, 0xcd] :: string + 8 word list" 17]
      CreateSession_at_capacity[OF cap, of 15 "''01ab''" "()" "Inr [0x02, 0xcd] :: string + 8 word list" 17]
    by (simp add: len_cleanup_sm_full_16 len_cleanup_sm_full_15 ms lk ex enc After_def)
qed

text \<open>
  A registry at capacity whose only session is expired: the sweep makes room, the random
  source fails, and \<open>CreateSession\<close> returns the id-generation error. It returns neither
  the capacity error nor a session.
\<close>

theorem CreateSession_id_failure_counterexample:
  "maxSessons sm_full \<le> len_sessions sm_full
   \<and> len_sessions (cleanupExpiredLocked 16 sm_full) < maxSessons sm_full
   \<and> CreateSession () (Inl ''entropy'') 16 17 sm_full
       = (Inl (SessionIDFailed ''entropy''), cleanupExpiredLocked 16 sm_full)"
  by (simp add: len_sm_full len_cleanup_sm_full_16 CreateSession_def storeNewSession_def
        generateSessionID_def Let_def)
    (simp add: sm_full_def cleanupExpiredLocked_def)

text \<open>
  Claim C9. \<open>NewSessionManager\<close> replaces a TTL of exactly 0 by 30 minutes and a maximum
  of exactly 0 by 1000, and keeps every other argument, negative ones included. With a
  negative maximum, \<open>CreateSession\<close> fails with the capacity error whatever sessions the
  registry holds, and stores nothing.
\<close>

theorem NewSessionManager_defaults:
  "ttl (NewSessionManager 0 maxSessions :: 'md SessionManager) = 30 * Minute
   \<and> maxSessons (NewSessionManager sessionTTL 0 :: 'md SessionManager) = 1000
   \<and> (sessionTTL \<noteq> 0 \<longrightarrow> ttl (NewSessionManager sessionTTL maxSessions :: 'md SessionManager) = sessionTTL)
   \<and> (maxSessions \<noteq> 0 \<longrightarrow> maxSessons (NewSessionManager sessionTTL maxSessions :: 'md SessionManager) = maxSessions)
   \<and> (maxSessions < 0 \<longrightarrow>
        fst (CreateSession metadata rnd t_cleanup now
               ((NewSessionManager sessionTTL maxSessions :: 'md SessionManager)\<lparr>sessions := ss\<rparr>))
          = Inl (MaxSessionsReached maxSessions)
      \<and> sessions (snd (CreateSession metadata rnd t_cleanup now
               ((NewSessionManager sessionTTL maxSessions :: 'md SessionManager)\<lparr>sessions := ss\<rparr>)))
          = sessions (cleanupExpiredLocked t_cleanup
               ((NewSessionManager sessionTTL maxSessions :: 'md SessionManager)\<lparr>sessions := ss\<rparr>)))"
  by (simp add: NewSessionManager_def CreateSession_def Let_def len_sessions_def
        cleanupExpiredLocked_def)

theorem NewSessionManager_defaults_witness:
  "ttl (NewSessionManager 0 5 :: unit SessionManager) = 1800000000000
   \<and> maxSessons (NewSessionManager 7 0 :: unit SessionManager) = 1000
   \<and> ttl (NewSessionManager (-7) (-1) :: unit SessionManager) = -7
   \<and> maxSessons (NewSessionManager (-7) (-1) :: unit SessionManager) = -1
   \<and> fst (CreateSession () (Inr [0x02, 0xcd] :: string + 8 word list) 1 2
            ((NewSessionManager (-7) (-1) :: unit SessionManager)\<lparr>sessions := fmempty\<rparr>))
       = Inl (MaxSessionsReached (-1))
   \<and> sessions (snd (CreateSession () (Inr [0x02, 0xcd] :: string + 8 word list) 1 2
            ((NewSessionManager (-7) (-1) :: unit SessionManager)\<lparr>sessions := fmempty\<rparr>)))
       = fmempty"
  using NewSessionManager_defaults[where 'md=unit, of 5 7 "()" "Inr [0x02, 0xcd] :: string + 8 word list" 1 2 fmempty]
    NewSessionManager_defaults[where 'md=unit, of "-1" "-7" "()" "Inr [0x02, 0xcd] :: string + 8 word list" 1 2 fmempty]
  by (simp add: Minute_def Second_def Millisecond_def cleanupExpiredLocked_def)

subsection \<open>The retry policy\<close>

text \<open>
  Claim C7, as the code has it. Let the retry budget \<open>MaxRetries\<close> be at least 0, and let
  the first invocation of the operation fail with an error that \<open>isRetryable\<close> rejects.
  Then \<open>RetryWithBackoff\<close> returns the non-retryable error that wraps this error, and the
  events of the run are that one invocation: the operation has run exactly once and the
  context has not been consulted.
\<close>

theorem RetryWithBackoff_non_retryable:
  assumes "0 \<le> MaxRetries (config_or_default cfg0)"
    and "fst (fn env w) = Some err"
    and "\<not> isRetryable (errors env) (Some err)"
  shows "RetryWithBackoff env cfg0 w = (Some (NonRetryable err), snd (fn env w))
       \<and> RetryWithBackoff (traced env) cfg0 (w, [])
           = (Some (NonRetryable err), (snd (fn env w), [Invoked (Some err)]))
       \<and> invocations (snd (snd (RetryWithBackoff (traced env) cfg0 (w, [])))) = [Some err]"
  using assms
  by (simp add: RetryWithBackoff_def Let_def retry_loop_fatal[where err=err] traced_fn traced_errors)

theorem RetryWithBackoff_non_retryable_witness:
  "RetryWithBackoff (failing_env Forbidden False) None 0 = (Some (NonRetryable Forbidden), 1)
   \<and> RetryWithBackoff (traced (failing_env Forbidden False)) None (0, [])
       = (Some (NonRetryable Forbidden), (1, [Invoked (Some Forbidden)]))
   \<and> invocations (snd (snd (RetryWithBackoff (traced (failing_env Forbidden False)) None (0, []))))
       = [Some Forbidden]"
  using RetryWithBackoff_non_retryable[of None "failing_env Forbidden False" 0 Forbidden]
  by (simp add: config_or_default_def DefaultRetryConfig_def failing_env_def isRetryable_def
        reason_errors_def)

text \<open>
  With \<open>MaxRetries = -1\<close> the loop body never runs: an operation that would fail with
  a non-retryable error is not invoked at all, and the error returned is the
  budget-exceeded one with no underlying error.
\<close>

theorem RetryWithBackoff_non_retryable_counterexample:
  "\<not> isRetryable (errors (failing_env Forbidden False)) (fst (fn (failing_env Forbidden False) 0))
   \<and> RetryWithBackoff (traced (failing_env Forbidden False)) (Some no_budget) (0, [])
       = (Some (MaxRetriesExceeded (- 1) None), (0, []))"
  by (simp add: RetryWithBackoff_def config_or_default_def no_budget_def DefaultRetryConfig_def
        retry_loop_exit failing_env_def isRetryable_def reason_errors_def)

text \<open>
  Claim C8. Let \<open>MaxRetries = n\<close> with \<open>n \<ge> 0\<close>, let every invocation of the operation
  fail with a retryable error, and let no wait be cut short by the context. Then the
  operation is invoked exactly \<open>n + 1\<close> times, and the error returned is the
  budget-exceeded one that reports \<open>n\<close> and wraps the error of the last invocation.
\<close>

theorem RetryWithBackoff_budget_exhausted:
  assumes "MaxRetries (config_or_default cfg0) = n" and "0 \<le> n"
    and "\<forall>w. isRetryable (errors env) (fst (fn env w))"
    and "\<forall>b w. fst (wait env b w) = None"
  shows "length (invocations (snd (snd (RetryWithBackoff (traced env) cfg0 (w, []))))) = nat n + 1
       \<and> fst (RetryWithBackoff env cfg0 w)
           = Some (MaxRetriesExceeded n
                (last (invocations (snd (snd (RetryWithBackoff (traced env) cfg0 (w, [])))))))
       \<and> last (invocations (snd (snd (RetryWithBackoff (traced env) cfg0 (w, []))))) \<noteq> None"
proof -
  have le: "0 \<le> MaxRetries (config_or_default cfg0)" using assms(1,2) by simp
  show ?thesis
    using loop_always_failing[OF assms(3) assms(4) le,
        of "InitialBackoff (config_or_default cfg0)" None w] assms(1)
    by (simp add: RetryWithBackoff_def Let_def run_trace_def)
qed

theorem RetryWithBackoff_budget_exhausted_witness:
  "length (invocations (snd (snd (RetryWithBackoff (traced (failing_env Timeout False))
       (Some two_retries) (0, []))))) = 3
   \<and> fst (RetryWithBackoff (failing_env Timeout False) (Some two_retries) 0)
       = Some (MaxRetriesExceeded 2 (last (invocations (snd (snd
           (RetryWithBackoff (traced (failing_env Timeout False)) (Some two_retries) (0, [])))))))
   \<and> last (invocations (snd (snd (RetryWithBackoff (traced (failing_env Timeout False))
       (Some two_retries) (0, []))))) \<noteq> None"
  using RetryWithBackoff_budget_exhausted[of "Some two_retries" 2 "failing_env Timeout False" 0]
  by (simp add: config_or_default_def two_retries_def DefaultRetryConfig_def failing_env_def
        isRetryable_def reason_errors_def)

text \<open>
  Claim C10, as the code has it, for every behaviour of the context, a context cancelled
  from the start included. In every run, each consultation of the context comes right
  after an invocation that failed with a retryable error: never before the first
  invocation and never after a success. When \<open>MaxRetries\<close> is at least 0, the first event
  of the run is an invocation of the operation, and when that invocation succeeds the run
  ends there with a \<open>nil\<close> error.
\<close>

theorem RetryWithBackoff_context_checks:
  "checks_follow_failures (errors env) None
      (snd (snd (RetryWithBackoff (traced env) cfg0 (w, []))))
   \<and> (0 \<le> MaxRetries (config_or_default cfg0) \<longrightarrow>
        (\<exists>es. snd (snd (RetryWithBackoff (traced env) cfg0 (w, []))) = Invoked (fst (fn env w)) # es))
   \<and> (0 \<le> MaxRetries (config_or_default cfg0) \<and> fst (fn env w) = None \<longrightarrow>
        RetryWithBackoff (traced env) cfg0 (w, []) = (None, (snd (fn env w), [Invoked None])))"
proof (intro conjI impI)
  show "checks_follow_failures (errors env) None
      (snd (snd (RetryWithBackoff (traced env) cfg0 (w, []))))"
    using checks_run_trace[of env "config_or_default cfg0" 0]
    by (simp add: RetryWithBackoff_def Let_def run_trace_def)
next
  assume "0 \<le> MaxRetries (config_or_default cfg0)"
  from first_event_invoked[OF this]
  show "\<exists>es. snd (snd (RetryWithBackoff (traced env) cfg0 (w, []))) = Invoked (fst (fn env w)) # es"
    by (simp add: RetryWithBackoff_def Let_def run_trace_def)
next
  assume "0 \<le> MaxRetries (config_or_default cfg0) \<and> fst (fn env w) = None"
  then show "RetryWithBackoff (traced env) cfg0 (w, []) = (None, (snd (fn env w), [Invoked None]))"
    by (simp add: RetryWithBackoff_def Let_def retry_loop_success traced_fn)
qed

theorem RetryWithBackoff_context_checks_witness:
  "checks_follow_failures reason_errors None
      (snd (snd (RetryWithBackoff (traced (failing_env Timeout True)) None (0, []))))
   \<and> snd (snd (RetryWithBackoff (traced (failing_env Timeout True)) None (0, [])))
       = [Invoked (Some Timeout), Waited 100000000 (Some Canceled)]
   \<and> RetryWithBackoff (traced succeeding_env) None (0, []) = (None, (1, [Invoked None]))"
  using RetryWithBackoff_context_checks[of "failing_env Timeout True" None 0]
    RetryWithBackoff_context_checks[of succeeding_env None 0]
  by (simp add: RetryWithBackoff_def config_or_default_def DefaultRetryConfig_def
        retry_loop_unfold failing_env_def succeeding_env_def traced_def isRetryable_def reason_errors_def
        nextBackoff_def Millisecond_def Second_def)

text \<open>
  With \<open>MaxRetries = -1\<close> and a cancelled context the operation is not invoked once.
\<close>

theorem RetryWithBackoff_cancelled_context_counterexample:
  "fst (wait (failing_env Timeout True) 0 0) = Some Canceled
   \<and> invocations (snd (snd (RetryWithBackoff (traced (failing_env Timeout True)) (Some no_budget) (0, [])))) = []"
  by (simp add: RetryWithBackoff_def config_or_default_def no_budget_def DefaultRetryConfig_def
        retry_loop_exit failing_env_def)

end
